theory Spec2Isabelle
  imports Complex_Main
begin

section \<open>JavaScript numbers\<close>

text \<open>
  A JavaScript number is an IEEE 754 double: NaN, one of the two infinities, or a finite
  value \<open>Fin x\<close>. The two zeros are one value, \<open>Fin 0\<close>; they differ only when something is
  divided by them, which the script does not do with a negative zero.
\<close>

datatype double = NaN | PInf | NInf | Fin real

text \<open>
  Rounding to the nearest double, ties to even. \<open>rne\<close> rounds a real to the nearest
  integer, a tie going to the even one. \<open>ulp_exp x\<close> is the exponent of the last place of
  the doubles around \<open>x\<close>: 52 below the binary exponent of \<open>x\<close>, and never below \<open>-1074\<close>, where
  the subnormal numbers lie. \<open>nearest x\<close> is the multiple of \<open>2\<close> to that exponent nearest to
  \<open>x\<close>, and \<open>rnd\<close> gives an infinity from \<open>2\<^sup>1\<^sup>0\<^sup>2\<^sup>4 - 2\<^sup>9\<^sup>7\<^sup>0\<close> on, the midpoint between
  the largest double and \<open>2\<^sup>1\<^sup>0\<^sup>2\<^sup>4\<close>.
\<close>

definition rne :: "real \<Rightarrow> int" where
  "rne q =
     (let f = \<lfloor>q\<rfloor>; r = q - of_int f
      in if r < 1 / 2 then f else if 1 / 2 < r then f + 1 else if even f then f else f + 1)"

definition ulp_exp :: "real \<Rightarrow> int" where
  "ulp_exp x = max (\<lfloor>log 2 \<bar>x\<bar>\<rfloor> - 52) (- 1074)"

definition nearest :: "real \<Rightarrow> real" where
  "nearest x =
     (if x = 0 then 0
      else of_int (rne (x / 2 powr of_int (ulp_exp x))) * 2 powr of_int (ulp_exp x))"

definition rnd :: "real \<Rightarrow> double" where
  "rnd x =
     (if 2 ^ 1024 - 2 ^ 970 \<le> \<bar>x\<bar> then (if 0 < x then PInf else NInf)
      else Fin (nearest x))"

definition is_double :: "real \<Rightarrow> bool" where
  \<comment> \<open>the finite doubles are the reals that rounding leaves as they are\<close>
  "is_double x \<longleftrightarrow> rnd x = Fin x"

subsection \<open>Arithmetic and comparison\<close>

fun d_neg :: "double \<Rightarrow> double" where
  "d_neg NaN = NaN"
| "d_neg PInf = NInf"
| "d_neg NInf = PInf"
| "d_neg (Fin x) = Fin (- x)"

fun d_add :: "double \<Rightarrow> double \<Rightarrow> double" where
  "d_add (Fin x) (Fin y) = rnd (x + y)"
| "d_add NaN b = NaN"
| "d_add a NaN = NaN"
| "d_add PInf NInf = NaN"
| "d_add NInf PInf = NaN"
| "d_add PInf b = PInf"
| "d_add NInf b = NInf"
| "d_add a PInf = PInf"
| "d_add a NInf = NInf"

definition d_sub :: "double \<Rightarrow> double \<Rightarrow> double" where
  "d_sub a b = d_add a (d_neg b)"

fun d_mul :: "double \<Rightarrow> double \<Rightarrow> double" where
  "d_mul (Fin x) (Fin y) = rnd (x * y)"
| "d_mul NaN b = NaN"
| "d_mul a NaN = NaN"
| "d_mul (Fin x) b = (if x = 0 then NaN else if 0 < x then b else d_neg b)"
| "d_mul a (Fin y) = (if y = 0 then NaN else if 0 < y then a else d_neg a)"
| "d_mul PInf b = b"
| "d_mul NInf b = d_neg b"

fun d_div :: "double \<Rightarrow> double \<Rightarrow> double" where
  "d_div (Fin x) (Fin y) =
     (if y = 0 then (if x = 0 then NaN else if 0 < x then PInf else NInf) else rnd (x / y))"
| "d_div NaN b = NaN"
| "d_div a NaN = NaN"
| "d_div (Fin x) b = Fin 0"
| "d_div a (Fin y) = (if 0 \<le> y then a else d_neg a)"
| "d_div a b = NaN"

fun d_le :: "double \<Rightarrow> double \<Rightarrow> bool" where
  \<comment> \<open>\<open>a <= b\<close>: false when an operand is NaN\<close>
  "d_le (Fin x) (Fin y) = (x \<le> y)"
| "d_le NaN b = False"
| "d_le a NaN = False"
| "d_le NInf b = True"
| "d_le a PInf = True"
| "d_le a b = False"

fun d_less :: "double \<Rightarrow> double \<Rightarrow> bool" where
  "d_less (Fin x) (Fin y) = (x < y)"
| "d_less NaN b = False"
| "d_less a NaN = False"
| "d_less PInf b = False"
| "d_less a NInf = False"
| "d_less a b = True"

definition d_eq :: "double \<Rightarrow> double \<Rightarrow> bool" where
  \<comment> \<open>\<open>a == b\<close> on numbers: NaN equals nothing\<close>
  "d_eq a b \<longleftrightarrow> a \<noteq> NaN \<and> a = b"

fun Math_min :: "double \<Rightarrow> double \<Rightarrow> double" where
  "Math_min NaN b = NaN"
| "Math_min a NaN = NaN"
| "Math_min a b = (if d_le a b then a else b)"


subsection \<open>The functions of the host\<close>

text \<open>
  \<open>Math.sin\<close>, \<open>Math.cos\<close>, \<open>Math.asin\<close>, \<open>Math.sqrt\<close> and the operator \<open>**\<close> are not part of the
  script: ECMAScript leaves their values to the host, as approximations, and fixes only
  the special cases. The approximations are a parameter, a \<open>host\<close>; what a function
  returns is a double, so the value of the host is rounded. The special cases are the ones
  ECMAScript lists: zero arguments, infinities, NaN, and arguments outside the domain.
\<close>

record host =
  sin_approx :: "real \<Rightarrow> real"
  cos_approx :: "real \<Rightarrow> real"
  asin_approx :: "real \<Rightarrow> real"
  sqrt_approx :: "real \<Rightarrow> real"
  sq_approx :: "real \<Rightarrow> real"

fun Math_sin :: "host \<Rightarrow> double \<Rightarrow> double" where
  "Math_sin h (Fin x) = (if x = 0 then Fin 0 else rnd (sin_approx h x))"
| "Math_sin h a = NaN"

fun Math_cos :: "host \<Rightarrow> double \<Rightarrow> double" where
  "Math_cos h (Fin x) = (if x = 0 then Fin 1 else rnd (cos_approx h x))"
| "Math_cos h a = NaN"

fun Math_asin :: "host \<Rightarrow> double \<Rightarrow> double" where
  "Math_asin h (Fin x) =
     (if x = 0 then Fin 0 else if x < - 1 \<or> 1 < x then NaN else rnd (asin_approx h x))"
| "Math_asin h a = NaN"

fun Math_sqrt :: "host \<Rightarrow> double \<Rightarrow> double" where
  "Math_sqrt h (Fin x) = (if x = 0 then Fin 0 else if x < 0 then NaN else rnd (sqrt_approx h x))"
| "Math_sqrt h PInf = PInf"
| "Math_sqrt h a = NaN"

fun pow2 :: "host \<Rightarrow> double \<Rightarrow> double" where
  \<comment> \<open>\<open>a ** 2\<close>\<close>
  "pow2 h (Fin x) = (if x = 0 then Fin 0 else rnd (sq_approx h x))"
| "pow2 h NaN = NaN"
| "pow2 h a = PInf"

definition Math_PI :: real where
  \<comment> \<open>the double \<open>3.141592653589793\<close>\<close>
  "Math_PI = 884279719003555 / 281474976710656"

text \<open>
  A host whose functions are the mathematical ones (correctly rounded, then), for
  evaluating the script at concrete inputs.
\<close>

definition idealHost :: host where
  "idealHost =
     \<lparr>sin_approx = sin, cos_approx = cos, asin_approx = arcsin, sqrt_approx = sqrt,
      sq_approx = (\<lambda>x. x * x)\<rparr>"

section \<open>Distances\<close>

text \<open>A coordinate pair is the two-element array \<open>[lat, lng]\<close> of the script.\<close>

type_synonym latlng = "double \<times> double"

subsection \<open>Haversine distance (km)\<close>

definition toRad :: "double \<Rightarrow> double" where
  "toRad d = d_div (d_mul d (Fin Math_PI)) (Fin 180)"

definition haversine :: "host \<Rightarrow> latlng \<Rightarrow> latlng \<Rightarrow> double" where
  "haversine host a b =
     (let R = Fin 6371;
          dLat = toRad (d_sub (fst b) (fst a));
          dLon = toRad (d_sub (snd b) (snd a));
          lat1 = toRad (fst a);
          lat2 = toRad (fst b);
          h = d_add (pow2 host (Math_sin host (d_div dLat (Fin 2))))
                (d_mul (d_mul (Math_cos host lat1) (Math_cos host lat2))
                       (pow2 host (Math_sin host (d_div dLon (Fin 2)))))
      in d_mul (d_mul (Fin 2) R) (Math_asin host (Math_sqrt host h)))"

text \<open>
  \<open>polyDistanceKm\<close> runs \<open>for(i=1; i<points.length; i++) sum += haversine(points[i-1], points[i])\<close>:
  the loop is the recursion \<open>polyLoop\<close> on the points not yet visited, with the running
  sum \<open>acc\<close> (the script's \<open>sum\<close>).
\<close>

fun polyLoop :: "host \<Rightarrow> double \<Rightarrow> latlng list \<Rightarrow> double" where
  "polyLoop host acc (a # b # ps) = polyLoop host (d_add acc (haversine host a b)) (b # ps)"
| "polyLoop host acc ps = acc"

definition polyDistanceKm :: "host \<Rightarrow> latlng list \<Rightarrow> double" where
  "polyDistanceKm host points = polyLoop host (Fin 0) points"

text \<open>
  The path distance in the words of the specification: the sum of the distances over the
  consecutive pairs of the sequence, 0 when there is no pair. The sum is taken from the
  left, starting at 0.
\<close>

definition spec_pathDistanceKm :: "host \<Rightarrow> latlng list \<Rightarrow> double" where
  "spec_pathDistanceKm host points =
     foldl d_add (Fin 0) (map (\<lambda>(a, b). haversine host a b) (zip points (tl points)))"

text \<open>
  \<open>Array.prototype.slice(start)\<close> with an integer start: a negative start counts from the
  end of the array, and both cases are cut to the bounds of the array.
\<close>

definition slice :: "'a list \<Rightarrow> int \<Rightarrow> 'a list" where
  "slice xs start =
     (let len = int (length xs);
          k = (if start < 0 then max (len + start) 0 else min start len)
      in drop (nat k) xs)"

section \<open>Marker animation\<close>

text \<open>
  \<open>animateMarker(from, to, duration)\<close> stores \<open>animStartTs = performance.now()\<close> and
  registers \<open>step\<close>; each frame calls \<open>step(ts)\<close> with the frame's timestamp. \<open>step_p\<close> is
  the constant \<open>p\<close> of \<open>step\<close>, \<open>step\<close> the position handed to \<open>trainMarker.setLatLng\<close>,
  and \<open>step_again\<close> tells whether \<open>step\<close> requests another frame.
\<close>

definition animDuration :: double where
  "animDuration = Fin 4000"

definition step_p :: "double \<Rightarrow> double \<Rightarrow> double \<Rightarrow> double" where
  "step_p animStartTs duration ts = Math_min (d_div (d_sub ts animStartTs) duration) (Fin 1)"

definition step :: "latlng \<Rightarrow> latlng \<Rightarrow> double \<Rightarrow> double \<Rightarrow> double \<Rightarrow> latlng" where
  "step from to animStartTs duration ts =
     (let p = step_p animStartTs duration ts;
          lat = d_add (fst from) (d_mul (d_sub (fst to) (fst from)) p);
          lng = d_add (snd from) (d_mul (d_sub (snd to) (snd from)) p)
      in (lat, lng))"

definition step_again :: "double \<Rightarrow> double \<Rightarrow> double \<Rightarrow> bool" where
  "step_again animStartTs duration ts \<longleftrightarrow> d_less (step_p animStartTs duration ts) (Fin 1)"



section \<open>JavaScript values\<close>

text \<open>
  The values a parsed JSON payload is made of, and \<open>undefined\<close>, which reading a missing
  property gives. An object is the list of its own properties.
\<close>

datatype jsval =
    JUndefined
  | JNull
  | JBool bool
  | JNum real
  | JStr string
  | JArr "jsval list"
  | JObj "(string \<times> jsval) list"

fun truthy :: "jsval \<Rightarrow> bool" where
  "truthy JUndefined = False"
| "truthy JNull = False"
| "truthy (JBool b) = b"
| "truthy (JNum x) = (x \<noteq> 0)"
| "truthy (JStr s) = (s \<noteq> [])"
| "truthy (JArr xs) = True"
| "truthy (JObj kvs) = True"

definition or_else :: "jsval \<Rightarrow> jsval \<Rightarrow> jsval" where
  \<comment> \<open>\<open>a || b\<close>\<close>
  "or_else a b = (if truthy a then a else b)"

fun nullish :: "jsval \<Rightarrow> bool" where
  "nullish JUndefined = True"
| "nullish JNull = True"
| "nullish v = False"

text \<open>
  \<open>getProp v k\<close> is the property read \<open>v.k\<close> on a value that is neither \<open>null\<close> nor
  \<open>undefined\<close> (on those the read throws a TypeError, which the callers below check first),
  for the property names the script reads from a payload: \<open>trainNo\<close>, \<open>trainName\<close>,
  \<open>delayMinutes\<close>, \<open>stations\<close>, \<open>code\<close>, \<open>name\<close>, \<open>lat\<close>, \<open>lng\<close>, \<open>scheduled\<close>, \<open>actual\<close>.
  None of them is built in or inherited on a JSON value, so only an object's own
  properties answer.
\<close>

fun getProp :: "jsval \<Rightarrow> string \<Rightarrow> jsval" where
  "getProp (JObj kvs) k = (case map_of kvs k of Some v \<Rightarrow> v | None \<Rightarrow> JUndefined)"
| "getProp v k = JUndefined"

fun isArray :: "jsval \<Rightarrow> bool" where
  "isArray (JArr xs) = True"
| "isArray v = False"

fun elems :: "jsval \<Rightarrow> jsval list" where
  "elems (JArr xs) = xs"
| "elems v = []"

section \<open>Routes\<close>

text \<open>
  The internal format \<open>{ trainNo, trainName, delayMinutes, stations:[{code,name,lat,lng,sch,act}] }\<close>.
  The type parameter is the type of the coordinates: \<open>jsval\<close> where a route carries the
  values of a payload unchanged, \<open>double\<close> where the coordinates are numbers to compute with.
\<close>

record 'n station =
  code :: jsval
  name :: jsval
  lat :: 'n
  lng :: 'n
  sch :: jsval
  act :: jsval

record 'n route =
  trainNo :: jsval
  trainName :: jsval
  delayMinutes :: jsval
  stations :: "'n station list"

section \<open>ETA\<close>

text \<open>
  \<open>updateEta(stations, currentIdx)\<close>, with the value of \<open>Date.now()\<close> as the parameter \<open>now\<close>
  (the parameter \<open>stations\<close> is written \<open>stns\<close>, the name being taken by the record field).
  The result holds the constants \<open>remainingKm\<close> and \<open>etaMs\<close> that the function displays.
\<close>

record eta =
  remainingKm :: double
  etaMs :: double

definition updateEta :: "host \<Rightarrow> double station list \<Rightarrow> int \<Rightarrow> double \<Rightarrow> eta" where
  "updateEta host stns currentIdx now =
     (let points = map (\<lambda>s. (lat s, lng s)) stns;
          remainingPoints = slice points currentIdx;
          remainingKm = polyDistanceKm host remainingPoints;
          avgKmph = Fin 70;
          hours = d_div remainingKm avgKmph;
          etaMs = d_add now (d_mul (d_mul hours (Fin 3600)) (Fin 1000))
      in \<lparr>remainingKm = remainingKm, etaMs = etaMs\<rparr>)"

section \<open>Live API hook\<close>

text \<open>Every \<open>throw\<close> of the script and the TypeError of a property read on \<open>null\<close>.\<close>

datatype error =
    NoApiUrl
  | FetchRejected
  | ApiError
  | JsonRejected
  | UnexpectedSchema
  | TypeError
  | EmptyRoute

text \<open>
  The arrow function mapped over \<open>json.stations\<close>: its first property read throws when
  the element is \<open>null\<close>.
\<close>

definition mapStation :: "jsval \<Rightarrow> error + jsval station" where
  "mapStation s =
     (if nullish s then Inl TypeError
      else Inr \<lparr>code = or_else (getProp s ''code'') (JStr ''''),
                name = or_else (getProp s ''name'') (JStr ''''),
                lat = getProp s ''lat'',
                lng = getProp s ''lng'',
                sch = or_else (getProp s ''scheduled'') (JStr ''''),
                act = or_else (getProp s ''actual'') (JStr '''')\<rparr>)"

text \<open>\<open>Array.prototype.map\<close> with that function: the first element that throws ends it.\<close>

fun mapStations :: "jsval list \<Rightarrow> error + jsval station list" where
  "mapStations [] = Inr []"
| "mapStations (s # ss) =
     (case mapStation s of
        Inl e \<Rightarrow> Inl e
      | Inr t \<Rightarrow> (case mapStations ss of Inl e \<Rightarrow> Inl e | Inr ts \<Rightarrow> Inr (t # ts)))"

definition mapApiToRoute :: "jsval \<Rightarrow> error + jsval route" where
  "mapApiToRoute json =
     (if \<not> truthy json \<or> \<not> truthy (getProp json ''trainNo'') \<or> \<not> isArray (getProp json ''stations'')
      then Inl UnexpectedSchema
      else (case mapStations (elems (getProp json ''stations'')) of
              Inl e \<Rightarrow> Inl e
            | Inr ss \<Rightarrow>
                Inr \<lparr>trainNo = getProp json ''trainNo'',
                     trainName = or_else (getProp json ''trainName'') (JStr ''Live Train''),
                     delayMinutes = or_else (getProp json ''delayMinutes'') (JNum 0),
                     stations = ss\<rparr>))"

text \<open>
  The network is a parameter. The request of \<open>tryFetchLiveRoute\<close> (its URL and its
  \<open>Authorization\<close> header) is a function of \<open>trainNo\<close>, \<open>apiUrl\<close> and \<open>apiKey\<close>, so the
  network answers these three: \<open>None\<close> when building the URL throws or \<open>fetch\<close> rejects,
  otherwise a response with its \<open>ok\<close> flag and what \<open>res.json()\<close> resolves to
  (\<open>None\<close> when it rejects). Parameters named \<open>trainNo\<close> in the script are written \<open>tno\<close>,
  the name being taken by the record field.
\<close>

datatype response = Response (ok: bool) (json_body: "jsval option")

type_synonym network = "string \<Rightarrow> string \<Rightarrow> string \<Rightarrow> response option"

definition tryFetchLiveRoute :: "network \<Rightarrow> string \<Rightarrow> string \<Rightarrow> string \<Rightarrow> error + jsval route" where
  "tryFetchLiveRoute net tno apiUrl apiKey =
     (if apiUrl = [] then Inl NoApiUrl
      else (case net tno apiUrl apiKey of
              None \<Rightarrow> Inl FetchRejected
            | Some res \<Rightarrow>
                if \<not> ok res then Inl ApiError
                else (case json_body res of
                        None \<Rightarrow> Inl JsonRejected
                      | Some json \<Rightarrow> mapApiToRoute json)))"

section \<open>The demo routes\<close>

definition INR12627 :: "jsval route" where
  "INR12627 =
     \<lparr>trainNo = JStr ''INR12627'',
      trainName = JStr ''BharatCourier Express (Demo)'',
      delayMinutes = JNum 0,
      stations =
        [\<lparr>code = JStr ''CSMT'', name = JStr ''Mumbai CSMT'', lat = JNum 19.0760, lng = JNum 72.8777,
          sch = JStr ''08:00'', act = JStr ''08:00''\<rparr>,
         \<lparr>code = JStr ''PUNE'', name = JStr ''Pune Jn'', lat = JNum 18.5204, lng = JNum 73.8567,
          sch = JStr ''12:30'', act = JStr ''12:30''\<rparr>,
         \<lparr>code = JStr ''HYB'', name = JStr ''Hyderabad Deccan'', lat = JNum 17.3850, lng = JNum 78.4867,
          sch = JStr ''20:30'', act = JStr ''20:35''\<rparr>,
         \<lparr>code = JStr ''SBC'', name = JStr ''Bengaluru City'', lat = JNum 12.9716, lng = JNum 77.5946,
          sch = JStr ''05:30'', act = JStr ''05:45''\<rparr>,
         \<lparr>code = JStr ''MAS'', name = JStr ''Chennai Central'', lat = JNum 13.0827, lng = JNum 80.2707,
          sch = JStr ''11:30'', act = JStr ''11:35''\<rparr>]\<rparr>"

text \<open>
  \<open>MOCK_ROUTES\<close> is an object literal, and \<open>MOCK_ROUTES[trainNo]\<close> an ordinary property
  read: besides the one own property it answers the names that every object inherits
  from \<open>Object.prototype\<close>, with a function (an object for \<open>__proto__\<close>), all of them truthy.
\<close>

definition Object_prototype_keys :: "string list" where
  "Object_prototype_keys =
     [''constructor'', ''hasOwnProperty'', ''isPrototypeOf'', ''propertyIsEnumerable'',
      ''toLocaleString'', ''toString'', ''valueOf'', ''__proto__'',
      ''__defineGetter__'', ''__defineSetter__'', ''__lookupGetter__'', ''__lookupSetter__'']"

datatype provided = Route "jsval route" | Inherited string

definition MOCK_ROUTES :: "string \<Rightarrow> provided option" where
  \<comment> \<open>\<open>None\<close> is \<open>undefined\<close>\<close>
  "MOCK_ROUTES k =
     (if k = ''INR12627'' then Some (Route INR12627)
      else if k \<in> set Object_prototype_keys then Some (Inherited k)
      else None)"

definition fallbackRoute :: "string \<Rightarrow> provided option" where
  \<comment> \<open>\<open>MOCK_ROUTES[trainNo] || MOCK_ROUTES['INR12627']\<close>\<close>
  "fallbackRoute tno =
     (case MOCK_ROUTES tno of Some v \<Rightarrow> Some v | None \<Rightarrow> MOCK_ROUTES ''INR12627'')"

section \<open>Routing: live or mock\<close>

definition isWhiteSpace :: "char \<Rightarrow> bool" where
  \<comment> \<open>the white space and line terminators of JavaScript among the characters below 256\<close>
  "isWhiteSpace c \<longleftrightarrow> (of_char c :: nat) \<in> {9, 10, 11, 12, 13, 32, 160}"

definition trim :: "string \<Rightarrow> string" where
  "trim s = rev (dropWhile isWhiteSpace (rev (dropWhile isWhiteSpace s)))"

text \<open>The three controls \<open>getRouteProvider\<close> reads.\<close>

record controls =
  useLiveApi_checked :: bool
  apiUrl_value :: string
  apiKey_value :: string

text \<open>
  The body of the \<open>try\<close> block of the live provider. The first two tests of
  \<open>!r || !r.stations || !r.stations.length\<close> never fire on a route that \<open>mapApiToRoute\<close> built.
\<close>

definition liveAttempt :: "network \<Rightarrow> string \<Rightarrow> string \<Rightarrow> string \<Rightarrow> error + jsval route" where
  "liveAttempt net tno apiUrl apiKey =
     (case tryFetchLiveRoute net tno apiUrl apiKey of
        Inl e \<Rightarrow> Inl e
      | Inr r \<Rightarrow> if length (stations r) = 0 then Inl EmptyRoute else Inr r)"

text \<open>
  A provider is run against the network and gives what its promise settles to, \<open>Inl\<close> for
  a rejection and \<open>Inr\<close> for the value (\<open>None\<close> being \<open>undefined\<close>), with the toasts it shows.
\<close>

type_synonym provider = "network \<Rightarrow> (error + provided option) \<times> string list"

definition getRouteProvider :: "controls \<Rightarrow> string \<Rightarrow> provider" where
  "getRouteProvider ui tno =
     (let useLive = useLiveApi_checked ui;
          apiUrl = trim (apiUrl_value ui);
          apiKey = trim (apiKey_value ui)
      in if useLive \<and> apiUrl \<noteq> []
         then (\<lambda>net. case liveAttempt net tno apiUrl apiKey of
                        Inr r \<Rightarrow> (Inr (Some (Route r)), [])
                      | Inl e \<Rightarrow> (Inr (fallbackRoute tno), [''Live API failed, using demo route.'']))
         else (\<lambda>net. (Inr (fallbackRoute tno), [])))"

section \<open>Numbers in local storage\<close>

text \<open>
  The estimator keeps its cursor and its toggle in \<open>localStorage\<close> as strings, read with
  \<open>parseInt(_, 10)\<close> and written with \<open>String(_)\<close>. A number that is an integer or NaN is an
  \<open>int option\<close>, \<open>None\<close> being NaN.
\<close>

type_synonym num = "int option"

definition isDigit :: "char \<Rightarrow> bool" where
  "isDigit c \<longleftrightarrow> c \<in> set ''0123456789''"

definition digitVal :: "char \<Rightarrow> int" where
  "digitVal c = int (of_char c) - 48"

text \<open>
  \<open>parseInt(str, 10)\<close>: leading white space is skipped, one sign is read, then the longest
  run of decimal digits; with no digit the result is NaN. The value is the mathematical
  integer of the digits; where the estimator uses it, the rounding of that integer to a
  double is written out (\<open>toggleNext\<close>) or makes no difference (the bounds of \<open>estimateCurrentIndex\<close>).
\<close>

definition parseInt :: "string \<Rightarrow> num" where
  "parseInt str =
     (let s = dropWhile isWhiteSpace str;
          sign = (if s \<noteq> [] \<and> hd s = CHR ''-'' then - 1 else 1);
          s1 = (if s \<noteq> [] \<and> (hd s = CHR ''-'' \<or> hd s = CHR ''+'') then tl s else s);
          z = takeWhile isDigit s1
      in if z = [] then None
         else Some (sign * foldl (\<lambda>a c. 10 * a + digitVal c) 0 z))"

definition digitChar :: "nat \<Rightarrow> char" where
  "digitChar d = ''0123456789'' ! d"

fun digitsOf :: "nat \<Rightarrow> string" where
  "digitsOf n = (if n < 10 then [digitChar n] else digitsOf (n div 10) @ [digitChar (n mod 10)])"

declare digitsOf.simps [simp del]

text \<open>
  \<open>String(v)\<close> for an integer or NaN. The decimal digits are what JavaScript prints below
  \<open>10\<^sup>2\<^sup>1\<close>; the estimator prints a toggle in \<open>{-1, 0, 1}\<close> or an index bounded by the
  length of an array.
\<close>

definition String_num :: "num \<Rightarrow> string" where
  "String_num v =
     (case v of
        None \<Rightarrow> ''NaN''
      | Some i \<Rightarrow> if i < 0 then CHR ''-'' # digitsOf (nat (- i)) else digitsOf (nat i))"

definition js_max :: "num \<Rightarrow> num \<Rightarrow> num" where
  \<comment> \<open>\<open>Math.max\<close>: NaN if an argument is\<close>
  "js_max a b = (case (a, b) of (Some x, Some y) \<Rightarrow> Some (max x y) | _ \<Rightarrow> None)"

definition js_min :: "num \<Rightarrow> num \<Rightarrow> num" where
  "js_min a b = (case (a, b) of (Some x, Some y) \<Rightarrow> Some (min x y) | _ \<Rightarrow> None)"

definition js_less :: "num \<Rightarrow> num \<Rightarrow> bool" where
  \<comment> \<open>\<open>a < b\<close>: false if an operand is NaN\<close>
  "js_less a b = (case (a, b) of (Some x, Some y) \<Rightarrow> x < y | _ \<Rightarrow> False)"

definition js_rem :: "int \<Rightarrow> int \<Rightarrow> int" where
  \<comment> \<open>\<open>a % b\<close> on integers: the sign of the dividend\<close>
  "js_rem a b = sgn a * (\<bar>a\<bar> mod \<bar>b\<bar>)"

text \<open>
  \<open>(v + 1) % 2\<close> for \<open>v\<close> the result of \<open>parseInt\<close>, which is the double nearest to the
  integer read. From \<open>-2\<^sup>5\<^sup>3\<close> to \<open>2\<^sup>5\<^sup>3 - 1\<close> that double is the integer itself and the sum is
  exact; \<open>-2\<^sup>5\<^sup>3 - 1\<close> rounds to \<open>-2\<^sup>5\<^sup>3\<close>. Every other finite double is an even integer of
  magnitude \<open>2\<^sup>5\<^sup>3\<close> or more, adding 1 rounds to an even integer again, and the remainder
  is 0. An integer of magnitude \<open>2\<^sup>1\<^sup>0\<^sup>2\<^sup>4 - 2\<^sup>9\<^sup>7\<^sup>0\<close> or more is read as an infinity, and the
  remainder of an infinity is NaN.
\<close>

definition toggleNext :: "num \<Rightarrow> num" where
  "toggleNext v =
     (case v of
        None \<Rightarrow> None
      | Some n \<Rightarrow>
          if - (2 ^ 53) - 1 \<le> n \<and> n < 2 ^ 53 then Some (js_rem (max n (- (2 ^ 53)) + 1) 2)
          else if \<bar>n\<bar> < 2 ^ 1024 - 2 ^ 970 then Some 0
          else None)"

section \<open>The current segment\<close>

text \<open>
  The state \<open>estimateCurrentIndex\<close> reads and writes: \<open>localStorage\<close>, a map from keys to
  strings, and the global \<open>currentTrain\<close>, \<open>None\<close> while it is \<open>null\<close> and otherwise the
  identifier of the rendered route, a string. Storing is taken to succeed.
\<close>

record state =
  localStorage :: "string \<rightharpoonup> string"
  currentTrain :: "string option"

definition getItemOr0 :: "(string \<rightharpoonup> string) \<Rightarrow> string \<Rightarrow> string" where
  \<comment> \<open>\<open>localStorage.getItem(key) || '0'\<close>: a missing key gives \<open>null\<close>\<close>
  "getItemOr0 ls key = (case ls key of None \<Rightarrow> ''0'' | Some v \<Rightarrow> if v = [] then ''0'' else v)"

definition trainOrDemo :: "state \<Rightarrow> string" where
  \<comment> \<open>\<open>currentTrain || 'demo'\<close>\<close>
  "trainOrDemo st = (case currentTrain st of None \<Rightarrow> ''demo'' | Some t \<Rightarrow> if t = [] then ''demo'' else t)"

definition idxKey :: "state \<Rightarrow> string" where
  "idxKey st = ''rail_idx:'' @ trainOrDemo st"

definition toggleKeyOf :: "state \<Rightarrow> string" where
  "toggleKeyOf st = ''rail_toggle:'' @ trainOrDemo st"

text \<open>
  \<open>estimateCurrentIndex(stations)\<close> returns the index and leaves the state updated. Only the
  length of \<open>stations\<close> is read (the parameter is written \<open>stns\<close>).
\<close>

definition estimateCurrentIndex :: "state \<Rightarrow> 'a list \<Rightarrow> num \<times> state" where
  "estimateCurrentIndex st stns =
     (let ls = localStorage st;
          key = idxKey st;
          idx = parseInt (getItemOr0 ls key);
          idx = js_min (js_max idx (Some 0)) (Some (int (length stns) - 2));
          toggleKey = toggleKeyOf st;
          t = toggleNext (parseInt (getItemOr0 ls toggleKey));
          ls = ls(toggleKey \<mapsto> String_num t);
          idx = (if t = Some 0 \<and> js_less idx (Some (int (length stns) - 2))
                 then map_option (\<lambda>i. i + 1) idx else idx);
          ls = ls(key \<mapsto> String_num idx)
      in (idx, st\<lparr>localStorage := ls\<rparr>))"

text \<open>
  Repeated calls for one route: the state after \<open>n\<close> calls, and what call number \<open>n + 1\<close>
  returns. \<open>storedIndex\<close> and \<open>storedToggle\<close> are the persisted numbers as the next call
  reads them.
\<close>

fun after_calls :: "nat \<Rightarrow> state \<Rightarrow> 'a list \<Rightarrow> state" where
  "after_calls 0 st stns = st"
| "after_calls (Suc n) st stns = snd (estimateCurrentIndex (after_calls n st stns) stns)"

definition returned :: "nat \<Rightarrow> state \<Rightarrow> 'a list \<Rightarrow> num" where
  "returned n st stns = fst (estimateCurrentIndex (after_calls n st stns) stns)"

definition storedIndex :: "state \<Rightarrow> num" where
  "storedIndex st = parseInt (getItemOr0 (localStorage st) (idxKey st))"

definition storedToggle :: "state \<Rightarrow> num" where
  "storedToggle st = parseInt (getItemOr0 (localStorage st) (toggleKeyOf st))"

section \<open>Properties of rounding\<close>

lemma rne_of_int [simp]: "rne (of_int n) = n"
  by (simp add: rne_def)

lemma rne_floor: "\<lfloor>q\<rfloor> \<le> rne q \<and> rne q \<le> \<lfloor>q\<rfloor> + 1"
  by (simp add: rne_def Let_def)

lemma rne_ge: "of_int n \<le> q \<Longrightarrow> n \<le> rne q"
proof -
  assume "of_int n \<le> q"
  then have "n \<le> \<lfloor>q\<rfloor>" by (simp add: le_floor_iff)
  with rne_floor [of q] show ?thesis by simp
qed

lemma rne_le: "q \<le> of_int n \<Longrightarrow> rne q \<le> n"
proof (cases "q = of_int n")
  case True
  then show ?thesis by simp
next
  case False
  assume "q \<le> of_int n"
  with False have "q < of_int n" by simp
  then have "\<lfloor>q\<rfloor> < n" by (simp add: floor_less_iff)
  with rne_floor [of q] show ?thesis by simp
qed

lemma rne_mono: "q \<le> q' \<Longrightarrow> rne q \<le> rne q'"
proof (cases "\<lfloor>q\<rfloor> = \<lfloor>q'\<rfloor>")
  case True
  assume "q \<le> q'"
  then show ?thesis unfolding rne_def Let_def True by auto
next
  case False
  assume "q \<le> q'"
  then have "\<lfloor>q\<rfloor> \<le> \<lfloor>q'\<rfloor>" by (rule floor_mono)
  with False have "\<lfloor>q\<rfloor> + 1 \<le> \<lfloor>q'\<rfloor>" by simp
  with rne_floor [of q] rne_floor [of q'] show ?thesis by simp
qed

lemma rne_minus: "rne (- q) = - rne q"
proof (cases "q = of_int \<lfloor>q\<rfloor>")
  case True
  then obtain n where "q = of_int n" ..
  then show ?thesis by (simp flip: of_int_minus)
next
  case False
  then have f: "\<lfloor>- q\<rfloor> = - \<lfloor>q\<rfloor> - 1"
    by (metis add.inverse_inverse ceiling_altdef ceiling_def minus_diff_eq uminus_add_conv_diff)
  show ?thesis unfolding rne_def Let_def f by auto
qed

lemma binade:
  assumes "0 < x"
  shows "2 powr of_int \<lfloor>log 2 x\<rfloor> \<le> x" and "x < 2 powr (of_int \<lfloor>log 2 x\<rfloor> + 1)"
  using floor_log_eq_powr_iff [of x 2 "\<lfloor>log 2 x\<rfloor>"] assms by simp_all

lemma ulp_exp_minus [simp]: "ulp_exp (- x) = ulp_exp x"
  by (simp add: ulp_exp_def)

lemma nearest_minus: "nearest (- x) = - nearest x"
  by (simp add: nearest_def rne_minus)

lemma nearest_0 [simp]: "nearest 0 = 0"
  by (simp add: nearest_def)

lemma nearest_nonneg: "0 \<le> x \<Longrightarrow> 0 \<le> nearest x"
proof (cases "x = 0")
  case True
  then show ?thesis by simp
next
  case False
  assume "0 \<le> x"
  then have "of_int 0 \<le> x / 2 powr of_int (ulp_exp x)" by simp
  then have "0 \<le> rne (x / 2 powr of_int (ulp_exp x))" by (rule rne_ge)
  then show ?thesis using False by (simp add: nearest_def)
qed

text \<open>A dyadic number with a significand of 53 bits is a double.\<close>

lemma nearest_dyadic:
  assumes m: "\<bar>m\<bar> < 2 ^ 53" and E: "- 1074 \<le> E"
  shows "nearest (of_int m * 2 powr of_int E) = of_int m * 2 powr of_int E"
proof (cases "m = 0")
  case True
  then show ?thesis by simp
next
  case False
  let ?x = "of_int m * 2 powr of_int E :: real"
  let ?k = "\<lfloor>log 2 \<bar>?x\<bar>\<rfloor>"
  have x0: "?x \<noteq> 0" using False by simp
  have ax: "\<bar>?x\<bar> = of_int \<bar>m\<bar> * 2 powr of_int E" by (simp add: abs_mult)
  have "of_int \<bar>m\<bar> < (2 ^ 53 :: real)" using m by (metis of_int_less_numeral_power_cancel_iff)
  then have "\<bar>?x\<bar> < 2 ^ 53 * 2 powr of_int E" unfolding ax by simp
  also have "\<dots> = 2 powr (of_int (53 + E))"
    by (simp add: powr_add powr_realpow [symmetric])
  finally have lt: "\<bar>?x\<bar> < 2 powr (of_int (53 + E))" .
  have "2 powr of_int ?k \<le> \<bar>?x\<bar>" using binade(1) [of "\<bar>?x\<bar>"] x0 by simp
  with lt have "2 powr of_int ?k < (2::real) powr (of_int (53 + E))" by linarith
  then have "(of_int ?k :: real) < of_int (53 + E)" by (subst (asm) powr_less_cancel_iff) simp_all
  then have "?k < 53 + E" by (simp only: of_int_less_iff)
  then have e: "ulp_exp ?x \<le> E" using E by (simp add: ulp_exp_def)
  define x e n where "x = ?x" and "e = ulp_exp ?x" and "n = nat (E - ulp_exp ?x)"
  have "(of_int E :: real) = of_int e + real n" using e by (simp add: n_def e_def)
  then have pw: "(2::real) powr of_int E = 2 powr of_int e * 2 ^ n"
    by (simp add: powr_add powr_realpow)
  have xe: "x = of_int (m * 2 ^ n) * 2 powr of_int e"
    by (simp add: x_def pw)
  then have q: "x / 2 powr of_int e = of_int (m * 2 ^ n)"
    by simp
  have "nearest x = of_int (rne (x / 2 powr of_int e)) * 2 powr of_int e"
    using x0 by (simp add: nearest_def x_def e_def)
  also have "\<dots> = x"
    unfolding q rne_of_int using xe by simp
  finally show ?thesis by (simp add: x_def)
qed

text \<open>Rounding is monotone.\<close>

lemma nearest_mono_pos:
  assumes x: "0 < x" and xy: "x \<le> y"
  shows "nearest x \<le> nearest y"
proof -
  define kx ky where "kx = \<lfloor>log 2 x\<rfloor>" and "ky = \<lfloor>log 2 y\<rfloor>"
  define ex ey where "ex = ulp_exp x" and "ey = ulp_exp y"
  have y: "0 < y" using x xy by simp
  have nx: "nearest x = of_int (rne (x / 2 powr of_int ex)) * 2 powr of_int ex"
    and ny: "nearest y = of_int (rne (y / 2 powr of_int ey)) * 2 powr of_int ey"
    using x y by (simp_all add: nearest_def ex_def ey_def)
  have k: "kx \<le> ky" unfolding kx_def ky_def using x xy by (intro floor_mono) simp
  have exd: "ex = max (kx - 52) (- 1074)" and eyd: "ey = max (ky - 52) (- 1074)"
    using x y by (simp_all add: ulp_exp_def ex_def ey_def kx_def ky_def)
  have bx: "x < 2 powr (of_int kx + 1)" and yb: "2 powr of_int ky \<le> y"
    unfolding kx_def ky_def using binade(2) [OF x] binade(1) [OF y] by simp_all
  show ?thesis
  proof (cases "ex = ey")
    case True
    have "x / 2 powr of_int ey \<le> y / 2 powr of_int ey"
      using xy by (simp add: divide_right_mono)
    then have "rne (x / 2 powr of_int ey) \<le> rne (y / 2 powr of_int ey)" by (rule rne_mono)
    then show ?thesis unfolding nx ny True by (simp add: mult_right_mono)
  next
    case False
    with k exd eyd have lt: "kx + 1 \<le> ky" and ey52: "ey = ky - 52" and exk: "ex \<le> ky"
      by (auto simp: max_def split: if_splits)
    define B :: real where "B = 2 powr of_int ky"
    have By: "B \<le> y" unfolding B_def using yb .
    have "(of_int kx :: real) + 1 \<le> of_int ky" using lt by (metis of_int_1 of_int_add of_int_le_iff)
    then have "(2::real) powr (of_int kx + 1) \<le> B" unfolding B_def by (intro powr_mono) simp_all
    with bx have "x < B" by linarith
    then have xB: "x \<le> B" by simp
    \<comment> \<open>the lower value rounds to at most \<open>B\<close>\<close>
    define n where "n = nat (ky - ex)"
    have "(of_int ky :: real) = of_int ex + real n" using exk by (simp add: n_def)
    then have Bx: "B = of_int (2 ^ n) * 2 powr of_int ex"
      by (simp add: B_def powr_add powr_realpow)
    have "x / 2 powr of_int ex \<le> B / 2 powr of_int ex"
      using xB by (simp add: divide_right_mono)
    also have "\<dots> = of_int (2 ^ n)" unfolding Bx by simp
    finally have "rne (x / 2 powr of_int ex) \<le> 2 ^ n" by (rule rne_le)
    then have "of_int (rne (x / 2 powr of_int ex)) \<le> (of_int (2 ^ n) :: real)"
      by (simp only: of_int_le_iff)
    then have 1: "nearest x \<le> B" unfolding nx Bx by (simp add: mult_right_mono)
    \<comment> \<open>the upper value rounds to at least \<open>B\<close>\<close>
    have "(of_int ky :: real) = of_int ey + real (52::nat)" by (simp add: ey52)
    then have Be: "B = of_int (2 ^ 52) * 2 powr of_int ey"
      unfolding B_def by (simp only: powr_add powr_realpow) simp
    have "B / 2 powr of_int ey \<le> y / 2 powr of_int ey"
      using By by (simp add: divide_right_mono)
    then have "of_int (2 ^ 52) \<le> y / 2 powr of_int ey" unfolding Be by simp
    then have "2 ^ 52 \<le> rne (y / 2 powr of_int ey)" by (rule rne_ge)
    then have "(of_int (2 ^ 52) :: real) \<le> of_int (rne (y / 2 powr of_int ey))"
      by (simp only: of_int_le_iff)
    then have 2: "B \<le> nearest y" unfolding ny Be by (simp add: mult_right_mono)
    from 1 2 show ?thesis by simp
  qed
qed

lemma nearest_mono: "x \<le> y \<Longrightarrow> nearest x \<le> nearest y"
proof -
  assume xy: "x \<le> y"
  consider "0 < x" | "y < 0" | "x \<le> 0" "0 \<le> y" by linarith
  then show ?thesis
  proof cases
    case 1
    then show ?thesis using xy by (rule nearest_mono_pos)
  next
    case 2
    then have "nearest (- y) \<le> nearest (- x)" using xy by (intro nearest_mono_pos) simp_all
    then show ?thesis by (simp add: nearest_minus)
  next
    case 3
    have "nearest x \<le> 0" using nearest_nonneg [of "- x"] 3(1) by (simp add: nearest_minus)
    moreover have "0 \<le> nearest y" using 3(2) by (rule nearest_nonneg)
    ultimately show ?thesis by simp
  qed
qed

lemma nearest_int: "\<bar>n\<bar> < 2 ^ 53 \<Longrightarrow> nearest (of_int n) = of_int n"
  using nearest_dyadic [of n 0] by simp

lemma nearest_fraction:
  "\<bar>m\<bar> < 2 ^ 53 \<Longrightarrow> k \<le> 1074 \<Longrightarrow> nearest (of_int m / 2 ^ k) = of_int m / 2 ^ k"
  using nearest_dyadic [of m "- int k"] by (simp add: powr_minus powr_realpow field_simps)

text \<open>Rounding to a double.\<close>

lemma rnd_0 [simp]: "rnd 0 = Fin 0"
  by (simp add: rnd_def)

lemma rnd_minus: "rnd (- x) = d_neg (rnd x)"
  by (simp add: rnd_def nearest_minus)

lemma rnd_finite: "\<bar>x\<bar> < 2 ^ 1024 - 2 ^ 970 \<Longrightarrow> rnd x = Fin (nearest x)"
  by (simp add: rnd_def)

lemma is_doubleD: "is_double x \<Longrightarrow> nearest x = x \<and> \<bar>x\<bar> < 2 ^ 1024 - 2 ^ 970"
  by (auto simp: is_double_def rnd_def split: if_splits)

lemma is_double_int: "\<bar>n\<bar> < 2 ^ 53 \<Longrightarrow> is_double (of_int n)"
proof -
  assume n: "\<bar>n\<bar> < 2 ^ 53"
  then have "\<bar>of_int n :: real\<bar> < 2 ^ 53"
    by (metis of_int_abs of_int_less_numeral_power_cancel_iff)
  moreover have "(2 ^ 53 :: real) < 2 ^ 1024 - 2 ^ 970" by simp
  ultimately have "\<bar>of_int n :: real\<bar> < 2 ^ 1024 - 2 ^ 970" by linarith
  then show ?thesis using nearest_int [OF n] by (simp add: is_double_def rnd_def)
qed

lemma is_double_numeral [simp]: "numeral k < (2 ^ 53 :: int) \<Longrightarrow> is_double (numeral k)"
  using is_double_int [of "numeral k"] by simp

lemma is_double_0 [simp]: "is_double 0"
  by (simp add: is_double_def)

lemma is_double_1 [simp]: "is_double 1"
  using is_double_int [of 1] by simp

lemma is_double_minus: "is_double x \<Longrightarrow> is_double (- x)"
  by (simp add: is_double_def rnd_minus)

lemma is_double_fraction:
  "\<bar>m\<bar> < 2 ^ 53 \<Longrightarrow> k \<le> 1074 \<Longrightarrow> is_double (of_int m / 2 ^ k)"
proof -
  assume m: "\<bar>m\<bar> < 2 ^ 53" and k: "k \<le> 1074"
  have "\<bar>of_int m / 2 ^ k :: real\<bar> \<le> \<bar>of_int m\<bar>"
    by (simp add: abs_divide field_simps mult_le_cancel_left1)
  also have "\<dots> < 2 ^ 53" using m by (metis of_int_abs of_int_less_numeral_power_cancel_iff)
  also have "(2 ^ 53 :: real) < 2 ^ 1024 - 2 ^ 970" by simp
  finally show ?thesis using nearest_fraction [OF m k] by (simp add: is_double_def rnd_def)
qed

lemma rnd_double [simp]: "is_double x \<Longrightarrow> rnd x = Fin x"
  by (simp add: is_double_def)

lemma rnd_between:
  assumes a: "is_double a" and b: "is_double b" and ax: "a \<le> x" and xb: "x \<le> b"
  shows "\<exists>y. rnd x = Fin y \<and> a \<le> y \<and> y \<le> b"
proof -
  from is_doubleD [OF a] is_doubleD [OF b] ax xb
  have "\<bar>x\<bar> < 2 ^ 1024 - 2 ^ 970" by linarith
  then have "rnd x = Fin (nearest x)" by (rule rnd_finite)
  moreover have "a \<le> nearest x" using nearest_mono [OF ax] is_doubleD [OF a] by simp
  moreover have "nearest x \<le> b" using nearest_mono [OF xb] is_doubleD [OF b] by simp
  ultimately show ?thesis by blast
qed

lemma rnd_mono: "x \<le> y \<Longrightarrow> d_le (rnd x) (rnd y)"
  using nearest_mono [of x y] by (auto simp: rnd_def)

lemma rnd_nonneg: "0 \<le> x \<Longrightarrow> d_le (Fin 0) (rnd x)"
  using rnd_mono [of 0 x] by simp

lemma is_double_pow2: "n \<le> 1023 \<Longrightarrow> is_double (2 ^ n)"
proof -
  assume n: "n \<le> 1023"
  have "nearest (of_int 1 * 2 powr of_int (int n)) = of_int 1 * 2 powr of_int (int n)"
    by (rule nearest_dyadic) simp_all
  then have fx: "nearest (2 ^ n) = 2 ^ n" by (simp add: powr_realpow)
  have "(2::real) ^ n \<le> 2 ^ 1023" using n by (intro power_increasing) simp_all
  moreover have "(2 ^ 1023 :: real) < 2 ^ 1024 - 2 ^ 970" by simp
  ultimately have "\<bar>2 ^ n :: real\<bar> < 2 ^ 1024 - 2 ^ 970" by simp
  then show ?thesis using fx by (simp add: is_double_def rnd_def)
qed

section \<open>Properties of the distances\<close>

subsection \<open>Signs\<close>

lemma d_sub_Fin: "d_sub (Fin x) (Fin y) = rnd (x - y)"
  by (simp add: d_sub_def)

lemma d_neg_neg [simp]: "d_neg (d_neg a) = a"
  by (cases a) simp_all

lemma d_sub_swap: "d_sub b a = d_neg (d_sub a b)"
  by (cases a; cases b) (simp_all add: d_sub_def rnd_minus [symmetric])

lemma d_mul_neg: "d_mul (d_neg a) (Fin y) = d_neg (d_mul a (Fin y))"
  by (cases a) (simp_all add: rnd_minus [symmetric])

lemma d_div_neg: "d_div (d_neg a) (Fin y) = d_neg (d_div a (Fin y))"
  by (cases a) (simp_all add: rnd_minus [symmetric])

lemma d_mul_commute: "d_mul a b = d_mul b a"
  by (cases a; cases b) (simp_all add: mult.commute)

lemma toRad_neg: "toRad (d_neg d) = d_neg (toRad d)"
  by (simp add: toRad_def d_mul_neg d_div_neg)

lemma Math_sin_neg:
  "\<forall>t. sin_approx h (- t) = - sin_approx h t \<Longrightarrow> Math_sin h (d_neg a) = d_neg (Math_sin h a)"
  by (cases a) (simp_all add: rnd_minus [symmetric])

lemma pow2_neg:
  "\<forall>t. sq_approx h (- t) = sq_approx h t \<Longrightarrow> pow2 h (d_neg a) = pow2 h a"
  by (cases a) simp_all

lemma half_angle_sym:
  assumes "\<forall>t. sin_approx h (- t) = - sin_approx h t" and "\<forall>t. sq_approx h (- t) = sq_approx h t"
  shows "pow2 h (Math_sin h (d_div (toRad (d_sub x y)) (Fin 2)))
       = pow2 h (Math_sin h (d_div (toRad (d_sub y x)) (Fin 2)))"
proof -
  have "d_div (toRad (d_sub x y)) (Fin 2) = d_neg (d_div (toRad (d_sub y x)) (Fin 2))"
    by (subst d_sub_swap) (simp only: toRad_neg d_div_neg)
  then show ?thesis
    by (simp only: Math_sin_neg [OF assms(1)] pow2_neg [OF assms(2)])
qed

lemma haversine_sym:
  assumes "\<forall>t. sin_approx h (- t) = - sin_approx h t" and "\<forall>t. sq_approx h (- t) = sq_approx h t"
  shows "haversine h a b = haversine h b a"
  unfolding haversine_def Let_def
  by (simp only: half_angle_sym [OF assms, of "fst b" "fst a"] half_angle_sym [OF assms, of "snd b" "snd a"]
      d_mul_commute [of "Math_cos h (toRad (fst a))"])

subsection \<open>A point and itself\<close>

lemma toRad_0 [simp]: "toRad (Fin 0) = Fin 0"
  by (simp add: toRad_def)

lemma d_sub_self [simp]: "d_sub (Fin x) (Fin x) = Fin 0"
  by (simp add: d_sub_def)

lemma Math_PI_bounds: "3 < Math_PI" "Math_PI < 4"
  by (simp_all add: Math_PI_def)

lemma toRad_finite:
  assumes "\<bar>x\<bar> \<le> 2 ^ 1021"
  shows "\<exists>v. toRad (Fin x) = Fin v"
proof -
  have p: "is_double (2 ^ 1023)" and m: "is_double (- (2 ^ 1023))"
    using is_double_pow2 [of 1023] by (simp_all add: is_double_minus del: power_numeral)
  have "\<bar>x * Math_PI\<bar> \<le> 2 ^ 1021 * 4"
    unfolding abs_mult using assms Math_PI_bounds by (intro mult_mono) simp_all
  then have "- (2 ^ 1023) \<le> x * Math_PI" "x * Math_PI \<le> 2 ^ 1023" by simp_all
  from rnd_between [OF m p this] obtain u where
    u: "rnd (x * Math_PI) = Fin u" "- (2 ^ 1023) \<le> u" "u \<le> 2 ^ 1023" by blast
  then have "- (2 ^ 1023) \<le> u / 180" "u / 180 \<le> 2 ^ 1023" by simp_all
  from rnd_between [OF m p this] obtain v where "rnd (u / 180) = Fin v" by blast
  with u(1) show ?thesis by (simp add: toRad_def)
qed

lemma Math_cos_bounded:
  assumes "\<forall>t. \<bar>cos_approx h t\<bar> \<le> 1"
  shows "\<exists>c. Math_cos h (Fin v) = Fin c \<and> \<bar>c\<bar> \<le> 1"
proof (cases "v = 0")
  case True
  then show ?thesis by simp
next
  case False
  from assms have "- 1 \<le> cos_approx h v" "cos_approx h v \<le> 1"
    by (simp_all add: abs_le_iff minus_le_iff)
  from rnd_between [OF _ _ this] obtain c where "rnd (cos_approx h v) = Fin c" "- 1 \<le> c" "c \<le> 1"
    by (auto simp: is_double_minus)
  with False show ?thesis by (simp add: abs_le_iff)
qed

lemma d_mul_0_right: "d_mul (Fin z) (Fin 0) = Fin 0"
  by simp

lemma haversine_self:
  assumes x: "\<bar>x\<bar> \<le> 2 ^ 1021" and c: "\<forall>t. \<bar>cos_approx h t\<bar> \<le> 1"
  shows "haversine h (Fin x, Fin y) (Fin x, Fin y) = Fin 0"
proof -
  obtain v where v: "toRad (Fin x) = Fin v" using toRad_finite [OF x] by blast
  obtain c1 where c1: "Math_cos h (Fin v) = Fin c1" "\<bar>c1\<bar> \<le> 1"
    using Math_cos_bounded [OF c] by blast
  have "\<bar>c1 * c1\<bar> \<le> 1 * 1" unfolding abs_mult using c1(2) by (intro mult_mono) simp_all
  then have "c1 * c1 \<le> 1" by simp
  moreover have "- 1 \<le> c1 * c1" by (rule order_trans [OF _ zero_le_square]) simp
  ultimately have "- 1 \<le> c1 * c1" "c1 * c1 \<le> 1" by blast+
  from rnd_between [OF _ _ this] obtain c2 where c2: "rnd (c1 * c1) = Fin c2"
    by (auto simp: is_double_minus)
  show ?thesis
    by (simp add: haversine_def Let_def v c1 c2 del: Math_cos.simps)
qed

lemma haversine_overflow: "haversine h (Fin (2 ^ 1023), Fin 0) (Fin (2 ^ 1023), Fin 0) = NaN"
proof -
  have "(2 ^ 1024 - 2 ^ 970 :: real) \<le> 2 ^ 1023 * 3" by simp
  also have "\<dots> \<le> 2 ^ 1023 * Math_PI" using Math_PI_bounds by simp
  finally have "rnd (2 ^ 1023 * Math_PI) = PInf" by (simp add: rnd_def Math_PI_def)
  then have "toRad (Fin (2 ^ 1023)) = PInf" by (simp add: toRad_def)
  then show ?thesis by (simp add: haversine_def Let_def)
qed

subsection \<open>Distances are not negative\<close>

lemma d_le_0_iff: "d_le (Fin 0) a \<longleftrightarrow> a = PInf \<or> (\<exists>x. a = Fin x \<and> 0 \<le> x)"
  by (cases a) simp_all

lemma d_le_not_NaN: "d_le a b \<Longrightarrow> a \<noteq> NaN \<and> b \<noteq> NaN"
  by (cases a; cases b) simp_all

lemma d_le_refl: "a \<noteq> NaN \<Longrightarrow> d_le a a"
  by (cases a) simp_all

lemma d_le_trans: "d_le a b \<Longrightarrow> d_le b c \<Longrightarrow> d_le a c"
  by (cases a; cases b; cases c) simp_all

lemma rnd_not_NaN [simp]: "rnd x \<noteq> NaN"
  by (simp add: rnd_def)

lemma Math_sqrt_nn:
  assumes "\<forall>x. 0 < x \<longrightarrow> 0 \<le> sqrt_approx h x"
  shows "Math_sqrt h a = NaN \<or> d_le (Fin 0) (Math_sqrt h a)"
  using assms by (cases a) (simp_all add: rnd_nonneg)

lemma Math_asin_nn:
  assumes "\<forall>x. 0 < x \<and> x \<le> 1 \<longrightarrow> 0 \<le> asin_approx h x" and "d_le (Fin 0) a"
  shows "Math_asin h a = NaN \<or> d_le (Fin 0) (Math_asin h a)"
  using assms by (cases a) (auto simp: rnd_nonneg)

lemma d_mul_nn: "0 < c \<Longrightarrow> d_le (Fin 0) a \<Longrightarrow> d_le (Fin 0) (d_mul (Fin c) a)"
  by (cases a) (simp_all add: rnd_nonneg)

lemma haversine_nn:
  assumes "\<forall>x. 0 < x \<longrightarrow> 0 \<le> sqrt_approx h x"
    and "\<forall>x. 0 < x \<and> x \<le> 1 \<longrightarrow> 0 \<le> asin_approx h x"
  shows "haversine h a b = NaN \<or> d_le (Fin 0) (haversine h a b)"
proof -
  define s where "s = Math_sqrt h (d_add (pow2 h (Math_sin h (d_div (toRad (d_sub (fst b) (fst a))) (Fin 2))))
                (d_mul (d_mul (Math_cos h (toRad (fst a))) (Math_cos h (toRad (fst b))))
                       (pow2 h (Math_sin h (d_div (toRad (d_sub (snd b) (snd a))) (Fin 2))))))"
  have hv: "haversine h a b = d_mul (Fin 12742) (Math_asin h s)"
    by (simp add: haversine_def Let_def s_def)
  show ?thesis
  proof (cases "Math_asin h s = NaN")
    case True
    then show ?thesis by (simp add: hv)
  next
    case False
    have "s \<noteq> NaN" using False by auto
    with Math_sqrt_nn [OF assms(1)] have "d_le (Fin 0) s" unfolding s_def by blast
    from Math_asin_nn [OF assms(2) this] False have "d_le (Fin 0) (Math_asin h s)" by simp
    then show ?thesis unfolding hv by (simp add: d_mul_nn)
  qed
qed

lemma d_le_rnd_PInf [simp]: "d_le (rnd x) PInf"
  by (simp add: rnd_def)

lemma d_add_NaN [simp]: "d_add a NaN = NaN" "d_add NaN a = NaN"
  by (cases a; simp)+

lemma d_add_nn: "d_le (Fin 0) a \<Longrightarrow> d_le (Fin 0) b \<Longrightarrow> d_le (Fin 0) (d_add a b)"
  by (cases a; cases b) (simp_all add: rnd_nonneg)

lemma d_add_mono:
  "d_le (Fin 0) a \<Longrightarrow> d_le a a' \<Longrightarrow> d_le (Fin 0) b \<Longrightarrow> d_le (d_add a b) (d_add a' b)"
  by (cases a; cases a'; cases b) (simp_all add: rnd_mono d_le_refl)

lemma polyLoop_NaN [simp]: "polyLoop h NaN ps = NaN"
  by (induction h "NaN :: double" ps rule: polyLoop.induct) simp_all

lemma polyLoop_mono:
  assumes host: "\<forall>x. 0 < x \<longrightarrow> 0 \<le> sqrt_approx h x"
    "\<forall>x. 0 < x \<and> x \<le> 1 \<longrightarrow> 0 \<le> asin_approx h x"
  shows "d_le (Fin 0) acc \<Longrightarrow> d_le acc acc' \<Longrightarrow> polyLoop h acc' ps \<noteq> NaN \<Longrightarrow>
         d_le (polyLoop h acc ps) (polyLoop h acc' ps)"
proof (induction ps arbitrary: acc acc')
  case Nil
  then show ?case by simp
next
  case (Cons a ps)
  show ?case
  proof (cases ps)
    case Nil
    with Cons.prems show ?thesis by simp
  next
    case (Cons b qs)
    define d where "d = haversine h a b"
    have step: "polyLoop h c (a # ps) = polyLoop h (d_add c d) ps" for c
      by (simp add: Cons d_def)
    have "d \<noteq> NaN"
    proof
      assume "d = NaN"
      then have "polyLoop h acc' (a # ps) = NaN" by (simp add: step)
      with Cons.prems(3) show False by simp
    qed
    with haversine_nn [OF host, of a b] have d: "d_le (Fin 0) d" by (simp add: d_def)
    have acc': "d_le (Fin 0) acc'" using Cons.prems(1,2) by (rule d_le_trans)
    have "d_le (polyLoop h (d_add acc d) ps) (polyLoop h (d_add acc' d) ps)"
    proof (rule Cons.IH)
      show "d_le (Fin 0) (d_add acc d)" using Cons.prems(1) d by (rule d_add_nn)
      show "d_le (d_add acc d) (d_add acc' d)" using Cons.prems(1,2) d by (rule d_add_mono)
      show "polyLoop h (d_add acc' d) ps \<noteq> NaN" using Cons.prems(3) by (simp add: step)
    qed
    then show ?thesis by (simp add: step)
  qed
qed

lemma polyDistanceKm_tl:
  assumes host: "\<forall>x. 0 < x \<longrightarrow> 0 \<le> sqrt_approx h x"
    "\<forall>x. 0 < x \<and> x \<le> 1 \<longrightarrow> 0 \<le> asin_approx h x"
    and num: "polyDistanceKm h ps \<noteq> NaN"
  shows "d_le (polyDistanceKm h (tl ps)) (polyDistanceKm h ps)"
proof (cases ps)
  case Nil
  then show ?thesis by (simp add: polyDistanceKm_def)
next
  case (Cons a qs)
  show ?thesis
  proof (cases qs)
    case Nil
    with Cons show ?thesis by (simp add: polyDistanceKm_def)
  next
    case (Cons b rs)
    define d where "d = haversine h a b"
    have eq: "polyDistanceKm h ps = polyLoop h (d_add (Fin 0) d) qs"
      by (simp add: polyDistanceKm_def \<open>ps = a # qs\<close> Cons d_def)
    have "d \<noteq> NaN"
    proof
      assume "d = NaN"
      then have "polyDistanceKm h ps = NaN" by (simp add: eq)
      with num show False by simp
    qed
    with haversine_nn [OF host, of a b] have d: "d_le (Fin 0) d" by (simp add: d_def)
    have "d_le (polyLoop h (Fin 0) qs) (polyLoop h (d_add (Fin 0) d) qs)"
    proof (rule polyLoop_mono [OF host])
      show "d_le (Fin 0) (Fin 0)" by simp
      show "d_le (Fin 0) (d_add (Fin 0) d)" using d by (simp add: d_add_nn)
      show "polyLoop h (d_add (Fin 0) d) qs \<noteq> NaN" using num by (simp add: eq)
    qed
    moreover have "polyDistanceKm h (tl ps) = polyLoop h (Fin 0) qs"
      by (simp add: polyDistanceKm_def \<open>ps = a # qs\<close>)
    ultimately show ?thesis by (simp only: eq)
  qed
qed

lemma polyDistanceKm_drop_mono:
  assumes host: "\<forall>x. 0 < x \<longrightarrow> 0 \<le> sqrt_approx h x"
    "\<forall>x. 0 < x \<and> x \<le> 1 \<longrightarrow> 0 \<le> asin_approx h x"
    and num: "polyDistanceKm h (drop i ps) \<noteq> NaN"
  shows "i \<le> j \<Longrightarrow> d_le (polyDistanceKm h (drop j ps)) (polyDistanceKm h (drop i ps))"
proof (induction j)
  case 0
  then show ?case using num by (simp add: d_le_refl)
next
  case (Suc j)
  show ?case
  proof (cases "i = Suc j")
    case True
    then show ?thesis using num by (simp add: d_le_refl)
  next
    case False
    with Suc have le: "d_le (polyDistanceKm h (drop j ps)) (polyDistanceKm h (drop i ps))" by simp
    then have "polyDistanceKm h (drop j ps) \<noteq> NaN" by (simp add: d_le_not_NaN)
    from polyDistanceKm_tl [OF host this]
    have "d_le (polyDistanceKm h (drop (Suc j) ps)) (polyDistanceKm h (drop j ps))"
      by (simp add: drop_Suc tl_drop)
    then show ?thesis using le by (rule d_le_trans)
  qed
qed

lemma slice_nonneg: "0 \<le> k \<Longrightarrow> slice xs k = drop (nat k) xs"
  by (simp add: slice_def Let_def min_def)

subsection \<open>A distance on the equator\<close>

lemma is_double_q:
  "is_double (1 / 2)" "is_double (1 / 4)" "is_double (3 / 2)" "is_double (7 / 4)"
  "is_double (3 / 4)" "is_double (7 / 8)"
  using is_double_fraction [of 1 1] is_double_fraction [of 1 2] is_double_fraction [of 3 1]
    is_double_fraction [of 7 2] is_double_fraction [of 3 2] is_double_fraction [of 7 3]
  by simp_all

lemma toRad_100: "\<exists>v. toRad (Fin 100) = Fin v \<and> 3 / 2 \<le> v \<and> v \<le> 7 / 4"
proof -
  have "314 \<le> 100 * Math_PI" "100 * Math_PI \<le> 315" by (simp_all add: Math_PI_def)
  from rnd_between [OF _ _ this] obtain u where u: "rnd (100 * Math_PI) = Fin u" "314 \<le> u" "u \<le> 315"
    by auto
  then have "3 / 2 \<le> u / 180" "u / 180 \<le> 7 / 4" by simp_all
  from rnd_between [OF is_double_q(3,4) this] obtain v where
    "rnd (u / 180) = Fin v" "3 / 2 \<le> v" "v \<le> 7 / 4"
    by auto
  with u(1) show ?thesis by (simp add: toRad_def)
qed

lemma sin_bounds:
  fixes w :: real
  assumes "3 / 4 \<le> w" and "w \<le> 7 / 8"
  shows "1 / 2 \<le> sin w" and "sin w \<le> 1"
proof -
  have "sin (pi / 6) \<le> sin w"
    using assms pi_ge_two pi_less_4 by (intro sin_monotone_2pi_le) simp_all
  then show "1 / 2 \<le> sin w" by (simp add: sin_30)
  show "sin w \<le> 1" by simp
qed

lemma haversine_equator:
  "\<exists>k. haversine idealHost (Fin 0, Fin 0) (Fin 0, Fin 100) = Fin k \<and> 3185 \<le> k \<and> k \<le> 25484"
proof -
  obtain v where v: "toRad (Fin 100) = Fin v" "3 / 2 \<le> v" "v \<le> 7 / 4" using toRad_100 by blast
  then have "3 / 4 \<le> v / 2" "v / 2 \<le> 7 / 8" by simp_all
  from rnd_between [OF is_double_q(5,6) this] obtain w where
    w: "rnd (v / 2) = Fin w" "3 / 4 \<le> w" "w \<le> 7 / 8" by auto
  from rnd_between [OF is_double_q(1) is_double_1 sin_bounds [OF w(2,3)]] obtain s where
    s: "rnd (sin w) = Fin s" "1 / 2 \<le> s" "s \<le> 1" by auto
  have "1 / 4 \<le> s * s" using mult_mono [of "1 / 2" s "1 / 2" s] s(2) by simp
  moreover have "s * s \<le> 1" using mult_mono [of s 1 s 1] s(2,3) by simp
  ultimately obtain s2 where s2: "rnd (s * s) = Fin s2" "1 / 4 \<le> s2" "s2 \<le> 1"
    using rnd_between [OF is_double_q(2) is_double_1] by blast
  obtain s3 where s3: "rnd s2 = Fin s3" "1 / 4 \<le> s3" "s3 \<le> 1"
    using rnd_between [OF is_double_q(2) is_double_1 s2(2,3)] by blast
  obtain s4 where s4: "rnd s3 = Fin s4" "1 / 4 \<le> s4" "s4 \<le> 1"
    using rnd_between [OF is_double_q(2) is_double_1 s3(2,3)] by blast
  have "1 / 2 \<le> sqrt s4"
    using real_sqrt_le_mono [OF s4(2)] by (simp add: real_sqrt_divide)
  moreover have "sqrt s4 \<le> 1" using s4(3) by simp
  ultimately obtain r where r: "rnd (sqrt s4) = Fin r" "1 / 2 \<le> r" "r \<le> 1"
    using rnd_between [OF is_double_q(1) is_double_1] by blast
  have "arcsin (1 / 2) \<le> arcsin r" using r(2,3) by (intro arcsin_le_arcsin) simp_all
  then have "1 / 4 \<le> arcsin r" using pi_ge_two by simp
  moreover have "arcsin r \<le> 2" using arcsin_ubound [of r] r(2,3) pi_less_4 by simp
  ultimately obtain t where t: "rnd (arcsin r) = Fin t" "1 / 4 \<le> t" "t \<le> 2"
    using rnd_between [OF is_double_q(2), of 2] by auto
  have "3185 \<le> 12742 * t" "12742 * t \<le> 25484" using t(2,3) by simp_all
  from rnd_between [OF _ _ this] obtain k where k: "rnd (12742 * t) = Fin k" "3185 \<le> k" "k \<le> 25484"
    by auto
  have w0: "w \<noteq> 0" "s \<noteq> 0" "s4 \<noteq> 0" "r \<noteq> 0" "\<not> 1 < r" "\<not> r < - 1" "\<not> s4 < 0"
    using w(2) s(2) s4(2) r(2,3) by simp_all
  have "haversine idealHost (Fin 0, Fin 0) (Fin 0, Fin 100) = Fin k"
    by (simp add: haversine_def Let_def d_sub_Fin v w s s2 s3 s4 r t k w0 idealHost_def)
  with k show ?thesis by blast
qed

text \<open>
  Claim C9, as amended. On a host whose \<open>Math.sin\<close> is odd, whose squaring is even and
  whose \<open>Math.cos\<close> stays within \<open>[-1, 1]\<close>: for every pair of points \<open>a\<close> and \<open>b\<close>,
  \<open>haversine(a, b)\<close> and \<open>haversine(b, a)\<close> are the same value, and for every finite point
  \<open>a\<close> whose latitude is at most \<open>2\<^sup>1\<^sup>0\<^sup>2\<^sup>1\<close> in magnitude, which every geographic latitude is,
  \<open>haversine(a, a)\<close> is 0.
\<close>

theorem haversine_symmetric_and_zero:
  assumes "\<forall>t. sin_approx h (- t) = - sin_approx h t"
    and "\<forall>t. sq_approx h (- t) = sq_approx h t"
    and "\<forall>t. \<bar>cos_approx h t\<bar> \<le> 1"
  shows "haversine h a b = haversine h b a
       \<and> (\<bar>x\<bar> \<le> 2 ^ 1021 \<longrightarrow>
            haversine h (Fin x, Fin y) (Fin x, Fin y) = Fin 0
          \<and> d_eq (haversine h (Fin x, Fin y) (Fin x, Fin y)) (Fin 0))"
proof (intro conjI impI)
  show "haversine h a b = haversine h b a"
    using assms(1,2) by (rule haversine_sym)
  assume "\<bar>x\<bar> \<le> 2 ^ 1021"
  then show z: "haversine h (Fin x, Fin y) (Fin x, Fin y) = Fin 0"
    using assms(3) by (rule haversine_self)
  show "d_eq (haversine h (Fin x, Fin y) (Fin x, Fin y)) (Fin 0)"
    unfolding z by (simp add: d_eq_def)
qed

theorem haversine_symmetric_and_zero_witness:
  "(\<forall>t. sin_approx idealHost (- t) = - sin_approx idealHost t)
   \<and> (\<forall>t. sq_approx idealHost (- t) = sq_approx idealHost t)
   \<and> (\<forall>t. \<bar>cos_approx idealHost t\<bar> \<le> 1)
   \<and> \<bar>77 / 4 :: real\<bar> \<le> 2 ^ 1021
   \<and> haversine idealHost (Fin (77 / 4), Fin (583 / 8)) (Fin (37 / 2), Fin (591 / 8))
       = haversine idealHost (Fin (37 / 2), Fin (591 / 8)) (Fin (77 / 4), Fin (583 / 8))
   \<and> haversine idealHost (Fin (77 / 4), Fin (583 / 8)) (Fin (77 / 4), Fin (583 / 8)) = Fin 0"
proof -
  have h: "\<forall>t. sin_approx idealHost (- t) = - sin_approx idealHost t"
    "\<forall>t. sq_approx idealHost (- t) = sq_approx idealHost t"
    "\<forall>t. \<bar>cos_approx idealHost t\<bar> \<le> 1"
    by (simp_all add: idealHost_def)
  have x: "\<bar>77 / 4 :: real\<bar> \<le> 2 ^ 1021" by simp
  from haversine_symmetric_and_zero [OF h, of "(Fin (77 / 4), Fin (583 / 8))"
      "(Fin (37 / 2), Fin (591 / 8))" "77 / 4" "583 / 8"] x h
  show ?thesis by blast
qed

text \<open>
  The claim as written speaks of every finite point. The coordinates are not validated,
  and for the finite latitude \<open>2\<^sup>1\<^sup>0\<^sup>2\<^sup>3\<close> the product with \<open>Math.PI\<close> overflows: the latitude in
  radians is infinite, its cosine NaN, and so is the distance from the point to itself,
  which then equals neither 0 nor itself.
\<close>

theorem haversine_overflow_counterexample:
  "haversine idealHost (Fin (2 ^ 1023), Fin 0) (Fin (2 ^ 1023), Fin 0) = NaN
   \<and> \<not> d_eq (haversine idealHost (Fin (2 ^ 1023), Fin 0) (Fin (2 ^ 1023), Fin 0)) (Fin 0)
   \<and> \<not> d_eq (haversine idealHost (Fin (2 ^ 1023), Fin 0) (Fin (2 ^ 1023), Fin 0))
             (haversine idealHost (Fin (2 ^ 1023), Fin 0) (Fin (2 ^ 1023), Fin 0))"
  by (simp add: haversine_overflow d_eq_def del: power_numeral)

text \<open>
  Claim C8, as amended. On a host whose \<open>Math.sqrt\<close> and \<open>Math.asin\<close> give nothing negative
  for arguments above 0: for every list of points and every pair of slice starting indices
  \<open>0 \<le> i \<le> j\<close>, if the path distance of the suffix starting at \<open>i\<close> is a number (not NaN),
  then the path distance of the suffix starting at \<open>j\<close> is a number too and is at most that
  of the suffix starting at \<open>i\<close>.
\<close>

theorem polyDistanceKm_suffix_antimono:
  assumes "\<forall>x. 0 < x \<longrightarrow> 0 \<le> sqrt_approx h x"
    and "\<forall>x. 0 < x \<and> x \<le> 1 \<longrightarrow> 0 \<le> asin_approx h x"
    and "0 \<le> i" and "i \<le> j"
    and "polyDistanceKm h (slice points i) \<noteq> NaN"
  shows "d_le (polyDistanceKm h (slice points j)) (polyDistanceKm h (slice points i))"
  using polyDistanceKm_drop_mono [OF assms(1,2), of "nat i" points "nat j"] assms(3-5)
  by (simp add: slice_nonneg)

theorem polyDistanceKm_suffix_antimono_witness:
  "(0::int) \<le> 0 \<and> (0::int) \<le> 1
   \<and> polyDistanceKm idealHost (slice [(Fin 0, Fin 0), (Fin 0, Fin 100)] 0) \<noteq> NaN
   \<and> polyDistanceKm idealHost (slice [(Fin 0, Fin 0), (Fin 0, Fin 100)] 1) = Fin 0
   \<and> d_le (Fin 0) (polyDistanceKm idealHost (slice [(Fin 0, Fin 0), (Fin 0, Fin 100)] 0))"
proof -
  have h: "\<forall>x. 0 < x \<longrightarrow> 0 \<le> sqrt_approx idealHost x"
    "\<forall>x. 0 < x \<and> x \<le> 1 \<longrightarrow> 0 \<le> asin_approx idealHost x"
    using arcsin_le_arcsin [of 0] by (auto simp: idealHost_def)
  obtain k where k: "haversine idealHost (Fin 0, Fin 0) (Fin 0, Fin 100) = Fin k"
    using haversine_equator by blast
  have n: "polyDistanceKm idealHost (slice [(Fin 0, Fin 0), (Fin 0, Fin 100)] 0) \<noteq> NaN"
    by (simp add: slice_def polyDistanceKm_def k)
  have s: "polyDistanceKm idealHost (slice [(Fin 0, Fin 0), (Fin 0, Fin 100)] 1) = Fin 0"
    by (simp add: slice_def polyDistanceKm_def)
  from polyDistanceKm_suffix_antimono [OF h _ _ n, of 1] s
  have "d_le (Fin 0) (polyDistanceKm idealHost (slice [(Fin 0, Fin 0), (Fin 0, Fin 100)] 0))"
    by simp
  with n s show ?thesis by simp
qed

text \<open>
  The claim as written has no condition. Once a segment is NaN the longer suffix is NaN,
  and the comparison with it is false: here the segment from the finite latitude \<open>2\<^sup>1\<^sup>0\<^sup>2\<^sup>3\<close>
  to itself.
\<close>

theorem polyDistanceKm_NaN_counterexample:
  "(0::int) \<le> 0 \<and> (0::int) \<le> 1
   \<and> polyDistanceKm idealHost (slice [(Fin (2 ^ 1023), Fin 0), (Fin (2 ^ 1023), Fin 0)] 1) = Fin 0
   \<and> polyDistanceKm idealHost (slice [(Fin (2 ^ 1023), Fin 0), (Fin (2 ^ 1023), Fin 0)] 0) = NaN
   \<and> \<not> d_le (polyDistanceKm idealHost (slice [(Fin (2 ^ 1023), Fin 0), (Fin (2 ^ 1023), Fin 0)] 1))
             (polyDistanceKm idealHost (slice [(Fin (2 ^ 1023), Fin 0), (Fin (2 ^ 1023), Fin 0)] 0))"
  by (simp add: slice_def polyDistanceKm_def haversine_overflow del: power_numeral)

section \<open>Properties of the animation\<close>














text \<open>
  With the progress at 1 the position is \<open>from + (to - from)\<close> as doubles compute it, which
  need not be \<open>to\<close>: from latitude 1 to latitude \<open>2\<^sup>-\<^sup>6\<^sup>0\<close> the difference rounds to \<open>-1\<close>, and
  the animation ends at latitude 0.
\<close>

lemma rnd_below_one: "rnd (1 / 2 ^ 60 - 1) = Fin (- 1)"
proof -
  define x :: real where "x = 1 / 2 ^ 60 - 1"
  have ax: "\<bar>x\<bar> = 1 - 1 / 2 ^ 60" by (simp add: x_def)
  have x0: "x \<noteq> 0" by (simp add: x_def)
  have "\<lfloor>log 2 \<bar>x\<bar>\<rfloor> = - 1"
    by (subst floor_log_eq_powr_iff) (simp_all add: ax powr_minus)
  then have e: "ulp_exp x = - 53" by (simp add: ulp_exp_def)
  have p: "2 powr of_int (- 53 :: int) = (1 / 2 ^ 53 :: real)"
    by (simp add: powr_minus powr_realpow [symmetric] inverse_eq_divide)
  have q: "x / (1 / 2 ^ 53) = 1 / 2 ^ 7 - 2 ^ 53" by (simp add: x_def)
  have f: "\<lfloor>1 / 2 ^ 7 - 2 ^ 53 :: real\<rfloor> = - (2 ^ 53)"
    by (subst floor_eq_iff) simp
  have r: "rne (1 / 2 ^ 7 - 2 ^ 53) = - (2 ^ 53)"
    unfolding rne_def f Let_def by simp
  have "nearest x = of_int (rne (x / 2 powr of_int (ulp_exp x))) * 2 powr of_int (ulp_exp x)"
    using x0 by (simp only: nearest_def if_False)
  also have "\<dots> = of_int (rne (x / (1 / 2 ^ 53))) * (1 / 2 ^ 53)" by (simp only: e p)
  also have "\<dots> = of_int (- (2 ^ 53)) * (1 / 2 ^ 53)" by (simp only: q r)
  also have "\<dots> = - 1" by simp
  finally have n: "nearest x = - 1" .
  have "\<bar>x\<bar> < 2 ^ 1024 - 2 ^ 970" unfolding ax by simp
  then have "rnd x = Fin (- 1)" using n by (simp only: rnd_finite)
  then show ?thesis unfolding x_def .
qed

lemma step_end_not_exact:
  "step (Fin 1, Fin 0) (Fin (1 / 2 ^ 60), Fin 0) (Fin 0) (Fin 4000) (Fin 4000) = (Fin 0, Fin 0)"
proof -
  have p: "step_p (Fin 0) (Fin 4000) (Fin 4000) = Fin 1"
    by (simp add: step_p_def d_sub_Fin)
  have "d_add (Fin 1) (d_mul (d_sub (Fin (1 / 2 ^ 60)) (Fin 1)) (Fin 1)) = Fin 0"
    unfolding d_sub_Fin rnd_below_one by (simp add: is_double_minus)
  then show ?thesis
    unfolding step_def p Let_def fst_conv snd_conv by (simp add: d_sub_Fin)
qed

section \<open>Properties of the ETA\<close>

text \<open>The loop of \<open>polyDistanceKm\<close> is the sum of the specification.\<close>

lemma polyLoop_foldl:
  "polyLoop h acc ps = foldl d_add acc (map (\<lambda>(a, b). haversine h a b) (zip ps (tl ps)))"
  by (induction h acc ps rule: polyLoop.induct) simp_all

lemma polyDistanceKm_spec: "polyDistanceKm h ps = spec_pathDistanceKm h ps"
  by (simp add: polyDistanceKm_def spec_pathDistanceKm_def polyLoop_foldl)

text \<open>
  Claim C6. For every list of stations, every current index within its bounds and every
  timestamp \<open>now\<close>, \<open>remainingKm\<close> is the path distance, in the words of the specification,
  of the suffix of the coordinate list that starts at the current index, and \<open>etaMs\<close> is
  \<open>now + (remainingKm / 70) * 3600 * 1000\<close>: the cruise speed is fixed at 70 km/h.
\<close>

theorem updateEta_value:
  "0 \<le> currentIdx \<Longrightarrow> currentIdx < int (length stns) \<Longrightarrow>
   remainingKm (updateEta h stns currentIdx now) =
       spec_pathDistanceKm h (drop (nat currentIdx) (map (\<lambda>s. (lat s, lng s)) stns))
   \<and> etaMs (updateEta h stns currentIdx now) =
       d_add now (d_mul (d_mul (d_div (remainingKm (updateEta h stns currentIdx now)) (Fin 70))
                               (Fin 3600)) (Fin 1000))"
  by (simp add: updateEta_def Let_def slice_nonneg polyDistanceKm_spec)

text \<open>
  On the equator from longitude 0 to longitude 100, with correctly rounded functions: the
  distance lies between 3185 and 25484 km, and the arrival between 45 and 365 hours after
  \<open>now\<close>.
\<close>

theorem updateEta_value_witness:
  "(0::int) \<le> 0
   \<and> (0::int) < int (length
        [\<lparr>code = JStr ''A'', name = JStr ''A'', lat = Fin 0, lng = Fin 0, sch = JStr '''', act = JStr ''''\<rparr>,
         \<lparr>code = JStr ''B'', name = JStr ''B'', lat = Fin 0, lng = Fin 100, sch = JStr '''', act = JStr ''''\<rparr>])
   \<and> (\<exists>k e. updateEta idealHost
        [\<lparr>code = JStr ''A'', name = JStr ''A'', lat = Fin 0, lng = Fin 0, sch = JStr '''', act = JStr ''''\<rparr>,
         \<lparr>code = JStr ''B'', name = JStr ''B'', lat = Fin 0, lng = Fin 100, sch = JStr '''', act = JStr ''''\<rparr>]
        0 (Fin 1700000000000) = \<lparr>remainingKm = Fin k, etaMs = Fin e\<rparr>
        \<and> 3185 \<le> k \<and> k \<le> 25484
        \<and> 1700162000000 \<le> e \<and> e \<le> 1701314000000)"
proof -
  let ?stns = "[\<lparr>code = JStr ''A'', name = JStr ''A'', lat = Fin 0, lng = Fin 0, sch = JStr '''', act = JStr ''''\<rparr>,
         \<lparr>code = JStr ''B'', name = JStr ''B'', lat = Fin 0, lng = Fin 100, sch = JStr '''', act = JStr ''''\<rparr>]"
  let ?r = "updateEta idealHost ?stns 0 (Fin 1700000000000)"
  have i: "(0::int) \<le> 0" "(0::int) < int (length ?stns)" by simp_all
  from updateEta_value [OF i, of idealHost "Fin 1700000000000"]
  have km: "remainingKm ?r = spec_pathDistanceKm idealHost [(Fin 0, Fin 0), (Fin 0, Fin 100)]"
    and ms: "etaMs ?r = d_add (Fin 1700000000000)
               (d_mul (d_mul (d_div (remainingKm ?r) (Fin 70)) (Fin 3600)) (Fin 1000))"
    by simp_all
  obtain k0 where k0: "haversine idealHost (Fin 0, Fin 0) (Fin 0, Fin 100) = Fin k0"
    "3185 \<le> k0" "k0 \<le> 25484"
    using haversine_equator by blast
  obtain k where k: "rnd k0 = Fin k" "3185 \<le> k" "k \<le> 25484"
    using rnd_between [OF _ _ k0(2,3)] by auto
  have km': "remainingKm ?r = Fin k"
    unfolding km by (simp add: spec_pathDistanceKm_def k0 k)
  have "45 \<le> k / 70" "k / 70 \<le> 365" using k(2,3) by simp_all
  from rnd_between [OF _ _ this] obtain hrs where
    hrs: "rnd (k / 70) = Fin hrs" "45 \<le> hrs" "hrs \<le> 365" by auto
  have "162000 \<le> hrs * 3600" "hrs * 3600 \<le> 1314000" using hrs(2,3) by simp_all
  from rnd_between [OF _ _ this] obtain m1 where
    m1: "rnd (hrs * 3600) = Fin m1" "162000 \<le> m1" "m1 \<le> 1314000" by auto
  have "162000000 \<le> m1 * 1000" "m1 * 1000 \<le> 1314000000" using m1(2,3) by simp_all
  from rnd_between [OF _ _ this] obtain m2 where
    m2: "rnd (m1 * 1000) = Fin m2" "162000000 \<le> m2" "m2 \<le> 1314000000" by auto
  have "1700162000000 \<le> 1700000000000 + m2" "1700000000000 + m2 \<le> 1701314000000"
    using m2(2,3) by simp_all
  from rnd_between [OF _ _ this] obtain e where
    e: "rnd (1700000000000 + m2) = Fin e" "1700162000000 \<le> e" "e \<le> 1701314000000" by auto
  have ms': "etaMs ?r = Fin e"
    unfolding ms km' by (simp add: hrs m1 m2 e)
  have "?r = \<lparr>remainingKm = Fin k, etaMs = Fin e\<rparr>"
    using km' ms' by (cases ?r) simp
  with k e i show ?thesis by blast
qed

section \<open>Reading back what was stored\<close>

lemma digitChar_cases:
  assumes "d < 10"
  shows "digitChar d \<in> set ''0123456789'' \<and> digitVal (digitChar d) = int d
         \<and> \<not> isWhiteSpace (digitChar d) \<and> digitChar d \<noteq> CHR ''-'' \<and> digitChar d \<noteq> CHR ''+''"
proof -
  from assms have "d = 0 \<or> d = 1 \<or> d = 2 \<or> d = 3 \<or> d = 4 \<or> d = 5 \<or> d = 6 \<or> d = 7 \<or> d = 8 \<or> d = 9"
    by arith
  then show ?thesis
    by (elim disjE) (simp_all add: digitChar_def digitVal_def isWhiteSpace_def)
qed

lemma digitsOf_digits: "set (digitsOf n) \<subseteq> set ''0123456789''"
proof (induction n rule: digitsOf.induct)
  case (1 n)
  show ?case
  proof (cases "n < 10")
    case True
    then show ?thesis using digitChar_cases [of n] by (subst digitsOf.simps) simp
  next
    case False
    then have "digitsOf n = digitsOf (n div 10) @ [digitChar (n mod 10)]"
      by (subst digitsOf.simps) simp
    then show ?thesis using 1 False digitChar_cases [of "n mod 10"] by simp
  qed
qed

lemma digitsOf_nonempty: "digitsOf n \<noteq> []"
  by (subst digitsOf.simps) simp

lemma takeWhile_isDigit:
  assumes "set ds \<subseteq> set ''0123456789''"
  shows "takeWhile isDigit ds = ds"
proof -
  have "\<forall>x\<in>set ds. isDigit x"
    unfolding isDigit_def using assms by blast
  then show ?thesis by (simp only: takeWhile_eq_all_conv)
qed

lemma foldl_digitsOf: "foldl (\<lambda>a c. 10 * a + digitVal c) 0 (digitsOf n) = int n"
proof (induction n rule: digitsOf.induct)
  case (1 n)
  show ?case
  proof (cases "n < 10")
    case True
    then show ?thesis using digitChar_cases [of n] by (subst digitsOf.simps) simp
  next
    case False
    then have "digitsOf n = digitsOf (n div 10) @ [digitChar (n mod 10)]"
      by (subst digitsOf.simps) simp
    then show ?thesis using 1 False digitChar_cases [of "n mod 10"] by (simp add: zdiv_int zmod_int)
  qed
qed

lemma parseInt_digits:
  assumes ne: "ds \<noteq> []" and dig: "set ds \<subseteq> set ''0123456789''"
  shows "parseInt ds = Some (foldl (\<lambda>a c. 10 * a + digitVal c) 0 ds)"
    and "parseInt (CHR ''-'' # ds) = Some (- foldl (\<lambda>a c. 10 * a + digitVal c) 0 ds)"
proof -
  from ne obtain c cs where ds: "ds = c # cs" by (cases ds) auto
  from dig have c: "c \<in> set ''0123456789''" by (simp add: ds)
  then have plain: "\<not> isWhiteSpace c" "c \<noteq> CHR ''-''" "c \<noteq> CHR ''+''"
    by (auto simp: isWhiteSpace_def)
  have tw: "takeWhile isDigit ds = ds"
    using dig by (rule takeWhile_isDigit)
  have dw: "dropWhile isWhiteSpace ds = ds"
    using plain by (simp add: ds)
  have m: "\<not> isWhiteSpace (CHR ''-'')"
    by (simp add: isWhiteSpace_def)
  show "parseInt ds = Some (foldl (\<lambda>a c. 10 * a + digitVal c) 0 ds)"
    unfolding parseInt_def dw Let_def using plain ne
    by (simp only: ds list.sel tw [unfolded ds] if_False if_True simp_thms list.distinct) simp
  have dw': "dropWhile isWhiteSpace (CHR ''-'' # ds) = CHR ''-'' # ds"
    using m by simp
  show "parseInt (CHR ''-'' # ds) = Some (- foldl (\<lambda>a c. 10 * a + digitVal c) 0 ds)"
    unfolding parseInt_def dw' Let_def using ne
    by (simp only: list.sel tw if_False if_True simp_thms list.distinct) simp
qed

lemma parseInt_digitsOf: "parseInt (digitsOf n) = Some (int n)"
  using parseInt_digits(1) [OF digitsOf_nonempty digitsOf_digits, of n]
  by (simp only: foldl_digitsOf)

lemma parseInt_minus_digitsOf: "parseInt (CHR ''-'' # digitsOf n) = Some (- int n)"
  using parseInt_digits(2) [OF digitsOf_nonempty digitsOf_digits, of n]
  by (simp only: foldl_digitsOf)

lemma parseInt_String_num: "parseInt (String_num v) = v"
proof (cases v)
  case None
  then show ?thesis
    by (simp add: String_num_def parseInt_def isWhiteSpace_def isDigit_def Let_def)
next
  case (Some i)
  then show ?thesis
    by (simp add: String_num_def parseInt_digitsOf parseInt_minus_digitsOf)
qed

lemma String_num_nonempty: "String_num v \<noteq> []"
  by (cases v) (simp_all add: String_num_def digitsOf_nonempty)

lemma getItemOr0_upd_same: "parseInt (getItemOr0 (ls(k \<mapsto> String_num v)) k) = v"
  by (simp add: getItemOr0_def String_num_nonempty parseInt_String_num)

lemma getItemOr0_upd_other: "k' \<noteq> k \<Longrightarrow> getItemOr0 (ls(k \<mapsto> s)) k' = getItemOr0 ls k'"
  by (simp add: getItemOr0_def)

lemma keys_distinct: "idxKey st \<noteq> toggleKeyOf st"
  by (simp add: idxKey_def toggleKeyOf_def)

section \<open>Properties of the estimator\<close>

lemma estimate_step:
  fixes stns :: "'a list" and st :: state
  defines "N \<equiv> int (length stns)"
  defines "st' \<equiv> snd (estimateCurrentIndex st stns)"
  defines "t \<equiv> toggleNext (storedToggle st)"
  defines "c \<equiv> js_min (js_max (storedIndex st) (Some 0)) (Some (N - 2))"
  defines "r \<equiv> (if t = Some 0 \<and> js_less c (Some (N - 2)) then map_option (\<lambda>i. i + 1) c else c)"
  shows "fst (estimateCurrentIndex st stns) = r"
    and "storedIndex st' = r"
    and "storedToggle st' = t"
    and "currentTrain st' = currentTrain st"
proof -
  have ct: "currentTrain st' = currentTrain st"
    by (simp add: st'_def estimateCurrentIndex_def Let_def)
  then have keys: "idxKey st' = idxKey st" "toggleKeyOf st' = toggleKeyOf st"
    by (simp_all add: idxKey_def toggleKeyOf_def trainOrDemo_def)
  show "fst (estimateCurrentIndex st stns) = r"
    by (simp add: estimateCurrentIndex_def Let_def r_def c_def t_def N_def storedIndex_def storedToggle_def)
  show "storedIndex st' = r"
    unfolding storedIndex_def keys
    by (simp add: st'_def estimateCurrentIndex_def Let_def getItemOr0_upd_same
        r_def c_def t_def N_def storedIndex_def storedToggle_def)
  show "storedToggle st' = t"
    unfolding storedToggle_def keys
    using keys_distinct [of st]
    by (simp add: st'_def estimateCurrentIndex_def Let_def getItemOr0_upd_same getItemOr0_upd_other
        t_def storedToggle_def)
  show "currentTrain st' = currentTrain st" by (rule ct)
qed

lemma estimate_Some:
  fixes stns :: "'a list"
  assumes k: "storedIndex st = Some k" and N: "2 \<le> length stns"
  defines "c \<equiv> min (max k 0) (int (length stns) - 2)"
  shows "\<exists>i. fst (estimateCurrentIndex st stns) = Some i
             \<and> storedIndex (snd (estimateCurrentIndex st stns)) = Some i
             \<and> 0 \<le> i \<and> i \<le> int (length stns) - 2 \<and> c \<le> i \<and> i \<le> c + 1
             \<and> (i = c + 1 \<longleftrightarrow>
                  toggleNext (storedToggle st) = Some 0 \<and> c < int (length stns) - 2)"
proof -
  have c: "js_min (js_max (storedIndex st) (Some 0)) (Some (int (length stns) - 2)) = Some c"
    by (simp add: k js_min_def js_max_def c_def)
  have range: "0 \<le> c" "c \<le> int (length stns) - 2"
    using N by (simp_all add: c_def)
  show ?thesis
    unfolding estimate_step(1,2) [of st stns] c
    using range by (simp add: js_less_def)
qed

lemma estimate_None:
  assumes "storedIndex st = None"
  shows "fst (estimateCurrentIndex st stns) = None"
  unfolding estimate_step(1) [of st stns] by (simp add: assms js_min_def js_max_def js_less_def)

lemma after_calls_stored:
  fixes stns :: "'a list"
  assumes "storedIndex st = Some k" and "2 \<le> length stns"
  shows "\<exists>i. storedIndex (after_calls n st stns) = Some i"
proof (induction n)
  case 0
  then show ?case using assms by simp
next
  case (Suc n)
  then obtain i where "storedIndex (after_calls n st stns) = Some i" by blast
  from estimate_Some [OF this assms(2)] show ?case by auto
qed

text \<open>
  Claim C2. For every route with \<open>N \<ge> 2\<close> stations and every sequence of repeated calls of
  the estimator, from any persisted state whose stored index is a natural number, every
  returned index lies in \<open>[0, N - 2]\<close>, and after each call the persisted index is the
  returned one, so it lies in \<open>[0, N - 2]\<close> too.
\<close>

theorem estimate_in_range:
  fixes stns :: "'a list"
  assumes "2 \<le> length stns" and "storedIndex st = Some k" and "0 \<le> k"
  shows "\<exists>i. returned n st stns = Some i \<and> 0 \<le> i \<and> i \<le> int (length stns) - 2
             \<and> storedIndex (after_calls (Suc n) st stns) = Some i"
proof -
  obtain j where "storedIndex (after_calls n st stns) = Some j"
    using after_calls_stored [OF assms(2,1)] by blast
  from estimate_Some [OF this assms(1)] show ?thesis
    by (auto simp: returned_def)
qed

theorem estimate_in_range_witness:
  "2 \<le> length (stations INR12627)
   \<and> storedIndex \<lparr>localStorage = Map.empty, currentTrain = Some ''INR12627''\<rparr> = Some 0
   \<and> (0::int) \<le> 0
   \<and> (\<exists>i. returned 7 \<lparr>localStorage = Map.empty, currentTrain = Some ''INR12627''\<rparr> (stations INR12627) = Some i
          \<and> 0 \<le> i \<and> i \<le> 3
          \<and> storedIndex (after_calls (Suc 7) \<lparr>localStorage = Map.empty, currentTrain = Some ''INR12627''\<rparr> (stations INR12627)) = Some i)"
proof -
  have n: "2 \<le> length (stations INR12627)" and l: "int (length (stations INR12627)) - 2 = 3"
    by (simp_all add: INR12627_def)
  have k: "storedIndex \<lparr>localStorage = Map.empty, currentTrain = Some ''INR12627''\<rparr> = Some 0"
    by (simp add: storedIndex_def getItemOr0_def parseInt_def isWhiteSpace_def isDigit_def digitVal_def Let_def)
  show ?thesis
    using estimate_in_range [OF n k, of 7] n k unfolding l by simp
qed

lemma returned_Some_stored:
  fixes stns :: "'a list"
  assumes "returned n st stns = Some a" and "2 \<le> length stns"
  shows "storedIndex (after_calls (Suc n) st stns) = Some a \<and> 0 \<le> a \<and> a \<le> int (length stns) - 2"
proof (cases "storedIndex (after_calls n st stns)")
  case None
  from estimate_None [OF this, of stns] assms(1) show ?thesis by (simp add: returned_def)
next
  case (Some j)
  from estimate_Some [OF this assms(2)] assms(1) show ?thesis
    by (auto simp: returned_def)
qed

lemma toggleNext_after_0: "toggleNext (Some 0) \<noteq> Some 0"
  by (simp add: toggleNext_def js_rem_def)

lemma storedToggle_Suc:
  "storedToggle (after_calls (Suc n) st stns) = toggleNext (storedToggle (after_calls n st stns))"
  using estimate_step(3) [of "after_calls n st stns" stns] by simp

text \<open>
  Claim C4. For every route with \<open>N \<ge> 2\<close> stations, in any sequence of calls the returned
  index never decreases and grows by at most 1 from one call to the next; it grows exactly
  on a call whose newly flipped toggle is 0 while the index is below \<open>N - 2\<close>; and over
  two calls in a row it still grows by at most 1, since a call that advanced leaves the
  toggle at 0 and the next flip is not 0.
\<close>

theorem estimate_monotone:
  fixes stns :: "'a list"
  assumes N: "2 \<le> length stns" and a: "returned n st stns = Some a"
  shows "\<exists>b c. returned (Suc n) st stns = Some b \<and> a \<le> b \<and> b \<le> a + 1
             \<and> (b = a + 1 \<longleftrightarrow>
                  storedToggle (after_calls (Suc (Suc n)) st stns) = Some 0
                  \<and> a < int (length stns) - 2)
             \<and> returned (Suc (Suc n)) st stns = Some c \<and> b \<le> c \<and> c \<le> a + 1"
proof -
  let ?N = "int (length stns)"
  let ?s1 = "after_calls (Suc n) st stns"
  let ?s2 = "after_calls (Suc (Suc n)) st stns"
  from returned_Some_stored [OF a N]
  have s1: "storedIndex ?s1 = Some a" and ra: "0 \<le> a" "a \<le> ?N - 2" by simp_all
  then have ca: "min (max a 0) (?N - 2) = a" by simp
  from estimate_Some [OF s1 N] obtain b where
    b: "returned (Suc n) st stns = Some b" "a \<le> b" "b \<le> a + 1"
       "b = a + 1 \<longleftrightarrow> toggleNext (storedToggle ?s1) = Some 0 \<and> a < ?N - 2"
    unfolding ca returned_def by blast
  from returned_Some_stored [OF b(1) N]
  have s2: "storedIndex ?s2 = Some b" and rb: "0 \<le> b" "b \<le> ?N - 2" by simp_all
  then have cb: "min (max b 0) (?N - 2) = b" by simp
  from estimate_Some [OF s2 N] obtain c where
    c: "returned (Suc (Suc n)) st stns = Some c" "b \<le> c" "c \<le> b + 1"
       "c = b + 1 \<longleftrightarrow> toggleNext (storedToggle ?s2) = Some 0 \<and> b < ?N - 2"
    unfolding cb returned_def by blast
  have t2: "storedToggle ?s2 = toggleNext (storedToggle ?s1)"
    by (rule storedToggle_Suc)
  have "c \<le> a + 1"
  proof (cases "b = a + 1")
    case True
    with b(4) t2 have "storedToggle ?s2 = Some 0" by simp
    with c(4) toggleNext_after_0 have "c \<noteq> b + 1" by simp
    with c(2,3) True show ?thesis by simp
  next
    case False
    with b(2,3) c(3) show ?thesis by simp
  qed
  with b c t2 show ?thesis by simp
qed

theorem estimate_monotone_witness:
  "2 \<le> length (stations INR12627)
   \<and> returned 0 \<lparr>localStorage = Map.empty, currentTrain = Some ''INR12627''\<rparr> (stations INR12627) = Some 0
   \<and> (\<exists>b c. returned 1 \<lparr>localStorage = Map.empty, currentTrain = Some ''INR12627''\<rparr> (stations INR12627) = Some b
          \<and> 0 \<le> b \<and> b \<le> 1
          \<and> returned 2 \<lparr>localStorage = Map.empty, currentTrain = Some ''INR12627''\<rparr> (stations INR12627) = Some c
          \<and> b \<le> c \<and> c \<le> 1)"
proof -
  have n: "2 \<le> length (stations INR12627)"
    by (simp add: INR12627_def)
  have a: "returned 0 \<lparr>localStorage = Map.empty, currentTrain = Some ''INR12627''\<rparr> (stations INR12627) = Some 0"
    by (simp add: returned_def estimateCurrentIndex_def Let_def idxKey_def toggleKeyOf_def trainOrDemo_def
      getItemOr0_def parseInt_def isWhiteSpace_def isDigit_def digitVal_def INR12627_def
      toggleNext_def js_rem_def js_min_def js_max_def js_less_def)
  from estimate_monotone [OF n a] obtain b c where
    "returned (Suc 0) \<lparr>localStorage = Map.empty, currentTrain = Some ''INR12627''\<rparr> (stations INR12627) = Some b"
    "0 \<le> b" "b \<le> 1"
    "returned (Suc (Suc 0)) \<lparr>localStorage = Map.empty, currentTrain = Some ''INR12627''\<rparr> (stations INR12627) = Some c"
    "b \<le> c" "c \<le> 1"
    by auto
  then show ?thesis using n a by (simp add: numeral_2_eq_2)
qed

text \<open>
  Claim C5. For every route with \<open>N \<ge> 2\<close> stations, once the persisted cursor equals
  \<open>N - 2\<close>, every later call returns \<open>N - 2\<close> and leaves the persisted index at \<open>N - 2\<close>.
\<close>

theorem estimate_holds_at_end:
  fixes stns :: "'a list"
  assumes N: "2 \<le> length stns" and k: "storedIndex st = Some (int (length stns) - 2)"
  shows "returned n st stns = Some (int (length stns) - 2)
         \<and> storedIndex (after_calls (Suc n) st stns) = Some (int (length stns) - 2)"
proof -
  have inv: "storedIndex (after_calls m st stns) = Some (int (length stns) - 2)" for m
  proof (induction m)
    case 0
    show ?case using k by simp
  next
    case (Suc m)
    from estimate_Some [OF Suc N] N show ?case by auto
  qed
  from estimate_Some [OF inv [of n] N] N show ?thesis
    by (auto simp: returned_def)
qed

theorem estimate_holds_at_end_witness:
  "2 \<le> length (stations INR12627)
   \<and> storedIndex \<lparr>localStorage = [''rail_idx:INR12627'' \<mapsto> ''3''], currentTrain = Some ''INR12627''\<rparr>
       = Some (int (length (stations INR12627)) - 2)
   \<and> returned 5 \<lparr>localStorage = [''rail_idx:INR12627'' \<mapsto> ''3''], currentTrain = Some ''INR12627''\<rparr>
        (stations INR12627) = Some 3"
proof -
  have n: "2 \<le> length (stations INR12627)" and l: "int (length (stations INR12627)) - 2 = 3"
    by (simp_all add: INR12627_def)
  have k: "storedIndex \<lparr>localStorage = [''rail_idx:INR12627'' \<mapsto> ''3''], currentTrain = Some ''INR12627''\<rparr>
       = Some (int (length (stations INR12627)) - 2)"
    unfolding l
    by (simp add: storedIndex_def idxKey_def trainOrDemo_def getItemOr0_def parseInt_def isWhiteSpace_def
        isDigit_def digitVal_def Let_def)
  show ?thesis
    using estimate_holds_at_end [OF n k, of 5] n k unfolding l by simp
qed

section \<open>Properties of the live mapping\<close>

lemma mapStations_Inr:
  "mapStations xs = Inr ss \<Longrightarrow>
   length ss = length xs \<and> (\<forall>i<length xs. mapStation (xs ! i) = Inr (ss ! i))"
proof (induction xs arbitrary: ss)
  case Nil
  then show ?case by simp
next
  case (Cons x xs)
  from Cons.prems obtain t ts where
    t: "mapStation x = Inr t" and ts: "mapStations xs = Inr ts" and ss: "ss = t # ts"
    by (auto split: sum.splits)
  from Cons.IH [OF ts] have
    len: "length ts = length xs" and nth: "\<forall>i<length xs. mapStation (xs ! i) = Inr (ts ! i)"
    by simp_all
  show ?case
  proof (intro conjI allI impI)
    show "length ss = length (x # xs)" using len ss by simp
    fix i assume "i < length (x # xs)"
    then show "mapStation ((x # xs) ! i) = Inr (ss ! i)"
      using t nth ss by (cases i) simp_all
  qed
qed

lemma mapStation_Inr:
  "mapStation s = Inr t \<Longrightarrow>
   lat t = getProp s ''lat'' \<and> lng t = getProp s ''lng''
   \<and> code t = or_else (getProp s ''code'') (JStr '''')
   \<and> name t = or_else (getProp s ''name'') (JStr '''')
   \<and> sch t = or_else (getProp s ''scheduled'') (JStr '''')
   \<and> act t = or_else (getProp s ''actual'') (JStr '''')"
  by (auto simp: mapStation_def split: if_splits)

lemma mapApiToRoute_Inr:
  assumes "mapApiToRoute json = Inr r"
  shows "truthy json" "truthy (getProp json ''trainNo'')" "isArray (getProp json ''stations'')"
    "mapStations (elems (getProp json ''stations'')) = Inr (stations r)"
    "trainNo r = getProp json ''trainNo''"
    "trainName r = or_else (getProp json ''trainName'') (JStr ''Live Train'')"
    "delayMinutes r = or_else (getProp json ''delayMinutes'') (JNum 0)"
  using assms by (auto simp: mapApiToRoute_def split: if_splits sum.splits)

lemma or_else_string: "or_else (JStr s) (JStr '''') = JStr s"
  by (simp add: or_else_def)

lemma or_else_missing: "or_else JUndefined d = d"
  by (simp add: or_else_def)

lemma mapStations_accepts:
  "(\<exists>ss. mapStations xs = Inr ss) \<longleftrightarrow> (\<forall>s\<in>set xs. \<not> nullish s)"
proof (induction xs)
  case Nil
  show ?case by simp
next
  case (Cons x xs)
  show ?case
  proof (cases "nullish x")
    case True
    then show ?thesis by (simp add: mapStation_def)
  next
    case False
    then obtain t where t: "mapStation x = Inr t" by (simp add: mapStation_def)
    show ?thesis
    proof (cases "mapStations xs")
      case (Inl e)
      with Cons t False show ?thesis by auto
    next
      case (Inr ts)
      with Cons t False show ?thesis by auto
    qed
  qed
qed

lemma mapApiToRoute_accepts:
  "(\<exists>r. mapApiToRoute json = Inr r) \<longleftrightarrow>
     truthy json \<and> truthy (getProp json ''trainNo'') \<and> isArray (getProp json ''stations'')
     \<and> (\<forall>s\<in>set (elems (getProp json ''stations'')). \<not> nullish s)"
proof (cases "truthy json \<and> truthy (getProp json ''trainNo'') \<and> isArray (getProp json ''stations'')")
  case False
  then show ?thesis by (auto simp: mapApiToRoute_def)
next
  case True
  have "(\<exists>r. mapApiToRoute json = Inr r) \<longleftrightarrow>
        (\<exists>ss. mapStations (elems (getProp json ''stations'')) = Inr ss)"
    using True by (cases "mapStations (elems (getProp json ''stations''))") (simp_all add: mapApiToRoute_def)
  with True show ?thesis by (simp only: mapStations_accepts) simp
qed

lemma mapApiToRoute_Inr_fields:
  assumes "mapApiToRoute json = Inr r"
  shows "length (stations r) = length (elems (getProp json ''stations''))
    \<and> (\<forall>i<length (stations r).
          lat (stations r ! i) = getProp (elems (getProp json ''stations'') ! i) ''lat''
        \<and> lng (stations r ! i) = getProp (elems (getProp json ''stations'') ! i) ''lng''
        \<and> code (stations r ! i) =
            (if truthy (getProp (elems (getProp json ''stations'') ! i) ''code'')
             then getProp (elems (getProp json ''stations'') ! i) ''code'' else JStr '''')
        \<and> name (stations r ! i) =
            (if truthy (getProp (elems (getProp json ''stations'') ! i) ''name'')
             then getProp (elems (getProp json ''stations'') ! i) ''name'' else JStr '''')
        \<and> sch (stations r ! i) =
            (if truthy (getProp (elems (getProp json ''stations'') ! i) ''scheduled'')
             then getProp (elems (getProp json ''stations'') ! i) ''scheduled'' else JStr '''')
        \<and> act (stations r ! i) =
            (if truthy (getProp (elems (getProp json ''stations'') ! i) ''actual'')
             then getProp (elems (getProp json ''stations'') ! i) ''actual'' else JStr ''''))
    \<and> delayMinutes r =
          (if truthy (getProp json ''delayMinutes'') then getProp json ''delayMinutes'' else JNum 0)"
proof -
  let ?xs = "elems (getProp json ''stations'')"
  from mapApiToRoute_Inr(4) [OF assms] mapStations_Inr [of ?xs "stations r"]
  have len: "length (stations r) = length ?xs"
    and nth: "\<forall>i<length ?xs. mapStation (?xs ! i) = Inr (stations r ! i)"
    by simp_all
  have "\<forall>i<length (stations r).
          lat (stations r ! i) = getProp (?xs ! i) ''lat''
        \<and> lng (stations r ! i) = getProp (?xs ! i) ''lng''
        \<and> code (stations r ! i) = or_else (getProp (?xs ! i) ''code'') (JStr '''')
        \<and> name (stations r ! i) = or_else (getProp (?xs ! i) ''name'') (JStr '''')
        \<and> sch (stations r ! i) = or_else (getProp (?xs ! i) ''scheduled'') (JStr '''')
        \<and> act (stations r ! i) = or_else (getProp (?xs ! i) ''actual'') (JStr '''')"
  proof (intro allI impI)
    fix i assume "i < length (stations r)"
    with nth len have "mapStation (?xs ! i) = Inr (stations r ! i)" by simp
    from mapStation_Inr [OF this]
    show "lat (stations r ! i) = getProp (?xs ! i) ''lat''
        \<and> lng (stations r ! i) = getProp (?xs ! i) ''lng''
        \<and> code (stations r ! i) = or_else (getProp (?xs ! i) ''code'') (JStr '''')
        \<and> name (stations r ! i) = or_else (getProp (?xs ! i) ''name'') (JStr '''')
        \<and> sch (stations r ! i) = or_else (getProp (?xs ! i) ''scheduled'') (JStr '''')
        \<and> act (stations r ! i) = or_else (getProp (?xs ! i) ''actual'') (JStr '''')" .
  qed
  with len mapApiToRoute_Inr(7) [OF assms] show ?thesis
    unfolding or_else_def by simp
qed

lemma mapStations_null:
  "\<exists>s\<in>set xs. nullish s \<Longrightarrow> mapStations xs = Inl TypeError"
proof (induction xs)
  case Nil
  then show ?case by simp
next
  case (Cons x xs)
  show ?case
  proof (cases "nullish x")
    case True
    then show ?thesis by (simp add: mapStation_def)
  next
    case False
    with Cons.prems have "\<exists>s\<in>set xs. nullish s" by simp
    from Cons.IH [OF this] False show ?thesis by (simp add: mapStation_def)
  qed
qed

text \<open>
  Claim C10, as amended. For every payload that is truthy, has a truthy \<open>trainNo\<close> and
  has under \<open>stations\<close> an array none of whose elements is \<open>null\<close>, the mapping returns a
  route: it has as many stations as the array, each station's \<open>lat\<close> and \<open>lng\<close> are the
  payload's values unchanged, \<open>code\<close>, \<open>name\<close> and the two schedule strings are the
  payload's values where these are truthy and the empty string where they are missing or
  falsy in another way, and \<open>delayMinutes\<close> is the payload's value where truthy and 0
  otherwise. With a \<open>null\<close> among the stations the mapping raises a TypeError.
\<close>

theorem mapApiToRoute_passes_through:
  assumes "truthy json" and "truthy (getProp json ''trainNo'')"
    and "isArray (getProp json ''stations'')"
  shows "((\<forall>s\<in>set (elems (getProp json ''stations'')). \<not> nullish s) \<longrightarrow>
      (\<exists>r. mapApiToRoute json = Inr r
        \<and> length (stations r) = length (elems (getProp json ''stations''))
        \<and> (\<forall>i<length (stations r).
              lat (stations r ! i) = getProp (elems (getProp json ''stations'') ! i) ''lat''
            \<and> lng (stations r ! i) = getProp (elems (getProp json ''stations'') ! i) ''lng''
            \<and> code (stations r ! i) =
                (if truthy (getProp (elems (getProp json ''stations'') ! i) ''code'')
                 then getProp (elems (getProp json ''stations'') ! i) ''code'' else JStr '''')
            \<and> name (stations r ! i) =
                (if truthy (getProp (elems (getProp json ''stations'') ! i) ''name'')
                 then getProp (elems (getProp json ''stations'') ! i) ''name'' else JStr '''')
            \<and> sch (stations r ! i) =
                (if truthy (getProp (elems (getProp json ''stations'') ! i) ''scheduled'')
                 then getProp (elems (getProp json ''stations'') ! i) ''scheduled'' else JStr '''')
            \<and> act (stations r ! i) =
                (if truthy (getProp (elems (getProp json ''stations'') ! i) ''actual'')
                 then getProp (elems (getProp json ''stations'') ! i) ''actual'' else JStr ''''))
        \<and> delayMinutes r =
              (if truthy (getProp json ''delayMinutes'') then getProp json ''delayMinutes''
               else JNum 0)))
    \<and> ((\<exists>s\<in>set (elems (getProp json ''stations'')). nullish s) \<longrightarrow>
         mapApiToRoute json = Inl TypeError)"
proof (intro conjI impI)
  assume "\<forall>s\<in>set (elems (getProp json ''stations'')). \<not> nullish s"
  with assms mapApiToRoute_accepts [of json] obtain r where r: "mapApiToRoute json = Inr r"
    by blast
  from mapApiToRoute_Inr_fields [OF r] r
  show "\<exists>r. mapApiToRoute json = Inr r
        \<and> length (stations r) = length (elems (getProp json ''stations''))
        \<and> (\<forall>i<length (stations r).
              lat (stations r ! i) = getProp (elems (getProp json ''stations'') ! i) ''lat''
            \<and> lng (stations r ! i) = getProp (elems (getProp json ''stations'') ! i) ''lng''
            \<and> code (stations r ! i) =
                (if truthy (getProp (elems (getProp json ''stations'') ! i) ''code'')
                 then getProp (elems (getProp json ''stations'') ! i) ''code'' else JStr '''')
            \<and> name (stations r ! i) =
                (if truthy (getProp (elems (getProp json ''stations'') ! i) ''name'')
                 then getProp (elems (getProp json ''stations'') ! i) ''name'' else JStr '''')
            \<and> sch (stations r ! i) =
                (if truthy (getProp (elems (getProp json ''stations'') ! i) ''scheduled'')
                 then getProp (elems (getProp json ''stations'') ! i) ''scheduled'' else JStr '''')
            \<and> act (stations r ! i) =
                (if truthy (getProp (elems (getProp json ''stations'') ! i) ''actual'')
                 then getProp (elems (getProp json ''stations'') ! i) ''actual'' else JStr ''''))
        \<and> delayMinutes r =
              (if truthy (getProp json ''delayMinutes'') then getProp json ''delayMinutes''
               else JNum 0)"
    by blast
next
  assume "\<exists>s\<in>set (elems (getProp json ''stations'')). nullish s"
  from mapStations_null [OF this] assms show "mapApiToRoute json = Inl TypeError"
    by (simp add: mapApiToRoute_def)
qed

theorem mapApiToRoute_passes_through_witness:
  "truthy (JObj [(''trainNo'', JStr ''12627''),
            (''stations'',
             JArr [JObj [(''code'', JStr ''SBC''), (''lat'', JNum 12.9716), (''lng'', JNum 77.5946)],
                   JObj [(''name'', JStr ''Chennai Central''), (''lat'', JNum 13.0827),
                         (''lng'', JNum 80.2707), (''code'', JNum 0), (''scheduled'', JStr ''11:30'')]])])
   \<and> mapApiToRoute
     (JObj [(''trainNo'', JStr ''12627''),
            (''stations'',
             JArr [JObj [(''code'', JStr ''SBC''), (''lat'', JNum 12.9716), (''lng'', JNum 77.5946)],
                   JObj [(''name'', JStr ''Chennai Central''), (''lat'', JNum 13.0827),
                         (''lng'', JNum 80.2707), (''code'', JNum 0), (''scheduled'', JStr ''11:30'')]])])
   = Inr \<lparr>trainNo = JStr ''12627'', trainName = JStr ''Live Train'', delayMinutes = JNum 0,
          stations =
            [\<lparr>code = JStr ''SBC'', name = JStr '''', lat = JNum 12.9716, lng = JNum 77.5946,
              sch = JStr '''', act = JStr ''''\<rparr>,
             \<lparr>code = JStr '''', name = JStr ''Chennai Central'', lat = JNum 13.0827,
              lng = JNum 80.2707, sch = JStr ''11:30'', act = JStr ''''\<rparr>]\<rparr>
   \<and> mapApiToRoute (JObj [(''trainNo'', JStr ''12627''), (''stations'', JArr [JNull])])
       = Inl TypeError"
proof -
  let ?p = "JObj [(''trainNo'', JStr ''12627''),
            (''stations'',
             JArr [JObj [(''code'', JStr ''SBC''), (''lat'', JNum 12.9716), (''lng'', JNum 77.5946)],
                   JObj [(''name'', JStr ''Chennai Central''), (''lat'', JNum 13.0827),
                         (''lng'', JNum 80.2707), (''code'', JNum 0), (''scheduled'', JStr ''11:30'')]])]"
  let ?q = "JObj [(''trainNo'', JStr ''12627''), (''stations'', JArr [JNull])]"
  have p: "truthy ?p" "truthy (getProp ?p ''trainNo'')" "isArray (getProp ?p ''stations'')"
    "\<forall>s\<in>set (elems (getProp ?p ''stations'')). \<not> nullish s"
    by simp_all
  have q: "truthy ?q" "truthy (getProp ?q ''trainNo'')" "isArray (getProp ?q ''stations'')"
    "\<exists>s\<in>set (elems (getProp ?q ''stations'')). nullish s"
    by simp_all
  from mapApiToRoute_passes_through [OF p(1-3)] p(4) obtain r where
    r: "mapApiToRoute ?p = Inr r" by blast
  have "mapApiToRoute ?p = Inr \<lparr>trainNo = JStr ''12627'', trainName = JStr ''Live Train'', delayMinutes = JNum 0,
          stations =
            [\<lparr>code = JStr ''SBC'', name = JStr '''', lat = JNum 12.9716, lng = JNum 77.5946,
              sch = JStr '''', act = JStr ''''\<rparr>,
             \<lparr>code = JStr '''', name = JStr ''Chennai Central'', lat = JNum 13.0827,
              lng = JNum 80.2707, sch = JStr ''11:30'', act = JStr ''''\<rparr>]\<rparr>"
    by (simp add: mapApiToRoute_def mapStation_def or_else_def)
  moreover from mapApiToRoute_passes_through [OF q(1-3)] q(4)
  have "mapApiToRoute ?q = Inl TypeError" by blast
  ultimately show ?thesis using p(1) by simp
qed

text \<open>
  The claim as written takes a payload with a non-empty \<open>trainNo\<close> and a \<open>stations\<close> array to
  be accepted, and an empty string to stand only for a missing field. With a \<open>null\<close>
  station the mapping raises, and a \<open>code\<close> of 0 or a \<open>name\<close> of \<open>false\<close> becomes the empty
  string as well.
\<close>

theorem mapApiToRoute_null_station_counterexample:
  "truthy (getProp (JObj [(''trainNo'', JStr ''INR1''), (''stations'', JArr [JNull])]) ''trainNo'')
   \<and> isArray (getProp (JObj [(''trainNo'', JStr ''INR1''), (''stations'', JArr [JNull])]) ''stations'')
   \<and> mapApiToRoute (JObj [(''trainNo'', JStr ''INR1''), (''stations'', JArr [JNull])]) = Inl TypeError
   \<and> mapApiToRoute
        (JObj [(''trainNo'', JStr ''INR1''),
               (''stations'', JArr [JObj [(''code'', JNum 0), (''name'', JBool False)]])])
      = Inr \<lparr>trainNo = JStr ''INR1'', trainName = JStr ''Live Train'', delayMinutes = JNum 0,
             stations = [\<lparr>code = JStr '''', name = JStr '''', lat = JUndefined, lng = JUndefined,
                          sch = JStr '''', act = JStr ''''\<rparr>]\<rparr>"
  by (simp add: mapApiToRoute_def mapStation_def or_else_def)

lemma liveAttempt_empty:
  assumes "apiUrl \<noteq> []" and "net tno apiUrl apiKey = Some (Response True (Some json))"
    and "mapApiToRoute json = Inr r" and "stations r = []"
  shows "liveAttempt net tno apiUrl apiKey = Inl EmptyRoute"
  using assms by (simp add: liveAttempt_def tryFetchLiveRoute_def)

text \<open>
  Claim C7, as amended. \<open>mapApiToRoute\<close> raises whenever the payload is falsy, has no
  truthy \<open>trainNo\<close>, or has no array under \<open>stations\<close>. An empty \<open>stations\<close> array passes the
  mapping, which returns a route without stations; it is the \<open>try\<close> block of the live
  provider that raises on it (\<open>Empty route\<close>).
\<close>

theorem mapApiToRoute_raises:
  "(\<not> truthy json \<or> \<not> truthy (getProp json ''trainNo'') \<or> \<not> isArray (getProp json ''stations'')
      \<longrightarrow> mapApiToRoute json = Inl UnexpectedSchema)
   \<and> (truthy json \<and> truthy (getProp json ''trainNo'') \<and> getProp json ''stations'' = JArr []
      \<longrightarrow> (\<exists>r. mapApiToRoute json = Inr r \<and> stations r = [])
          \<and> (apiUrl \<noteq> [] \<and> net tno apiUrl apiKey = Some (Response True (Some json))
               \<longrightarrow> liveAttempt net tno apiUrl apiKey = Inl EmptyRoute))"
proof (intro conjI impI)
  assume "\<not> truthy json \<or> \<not> truthy (getProp json ''trainNo'') \<or> \<not> isArray (getProp json ''stations'')"
  then show "mapApiToRoute json = Inl UnexpectedSchema"
    by (auto simp: mapApiToRoute_def)
next
  assume a: "truthy json \<and> truthy (getProp json ''trainNo'') \<and> getProp json ''stations'' = JArr []"
  then show "\<exists>r. mapApiToRoute json = Inr r \<and> stations r = []"
    by (simp add: mapApiToRoute_def)
next
  assume a: "truthy json \<and> truthy (getProp json ''trainNo'') \<and> getProp json ''stations'' = JArr []"
    and n: "apiUrl \<noteq> [] \<and> net tno apiUrl apiKey = Some (Response True (Some json))"
  from a obtain r where "mapApiToRoute json = Inr r" "stations r = []"
    by (auto simp: mapApiToRoute_def)
  with n show "liveAttempt net tno apiUrl apiKey = Inl EmptyRoute"
    by (simp add: liveAttempt_empty)
qed

theorem mapApiToRoute_raises_witness:
  "\<not> truthy (getProp (JObj [(''stations'', JArr [])]) ''trainNo'')
   \<and> mapApiToRoute (JObj [(''stations'', JArr [])]) = Inl UnexpectedSchema
   \<and> truthy (JObj [(''trainNo'', JStr ''INR12627''), (''stations'', JArr [])])
   \<and> truthy (getProp (JObj [(''trainNo'', JStr ''INR12627''), (''stations'', JArr [])]) ''trainNo'')
   \<and> getProp (JObj [(''trainNo'', JStr ''INR12627''), (''stations'', JArr [])]) ''stations'' = JArr []
   \<and> ''https://x/{trainNo}'' \<noteq> []
   \<and> liveAttempt (\<lambda>a b c. Some (Response True (Some (JObj [(''trainNo'', JStr ''INR12627''), (''stations'', JArr [])]))))
         ''INR12627'' ''https://x/{trainNo}'' [] = Inl EmptyRoute"
  using mapApiToRoute_raises [of "JObj [(''stations'', JArr [])]"]
    mapApiToRoute_raises [of "JObj [(''trainNo'', JStr ''INR12627''), (''stations'', JArr [])]"
      "''https://x/{trainNo}''"
      "\<lambda>a b c. Some (Response True (Some (JObj [(''trainNo'', JStr ''INR12627''), (''stations'', JArr [])])))"
      "''INR12627''" "[]"]
  by simp

text \<open>
  The claim as written has \<open>mapApiToRoute\<close> itself raise on an empty \<open>stations\<close> array. It
  returns a route.
\<close>

theorem mapApiToRoute_empty_stations_counterexample:
  "mapApiToRoute (JObj [(''trainNo'', JStr ''INR12627''), (''stations'', JArr [])])
   = Inr \<lparr>trainNo = JStr ''INR12627'', trainName = JStr ''Live Train'', delayMinutes = JNum 0,
          stations = []\<rparr>"
  by (simp add: mapApiToRoute_def or_else_def)

section \<open>Properties of the route provider\<close>


lemma not_inherited_INR12627: "''INR12627'' \<notin> set Object_prototype_keys"
  by (simp add: Object_prototype_keys_def)


lemma fallbackRoute_inherited:
  "tno \<in> set Object_prototype_keys \<Longrightarrow> fallbackRoute tno = Some (Inherited tno)"
  using not_inherited_INR12627 by (auto simp: fallbackRoute_def MOCK_ROUTES_def)

lemma getRouteProvider_resolves:
  "\<exists>v toasts. getRouteProvider ui tno net = (Inr v, toasts)"
  by (simp add: getRouteProvider_def Let_def split: sum.splits)

lemma liveAttempt_Inl_iff:
  "(\<exists>e. liveAttempt net tno apiUrl apiKey = Inl e) \<longleftrightarrow>
     apiUrl = []
   \<or> net tno apiUrl apiKey = None
   \<or> (\<exists>b. net tno apiUrl apiKey = Some (Response False b))
   \<or> net tno apiUrl apiKey = Some (Response True None)
   \<or> (\<exists>json e. net tno apiUrl apiKey = Some (Response True (Some json)) \<and> mapApiToRoute json = Inl e)
   \<or> (\<exists>json r. net tno apiUrl apiKey = Some (Response True (Some json))
          \<and> mapApiToRoute json = Inr r \<and> stations r = [])"
proof (cases "apiUrl = []")
  case True
  then show ?thesis by (simp add: liveAttempt_def tryFetchLiveRoute_def)
next
  case False
  show ?thesis
  proof (cases "net tno apiUrl apiKey")
    case None
    with False show ?thesis by (simp add: liveAttempt_def tryFetchLiveRoute_def)
  next
    case (Some res)
    obtain k b where res: "res = Response k b" by (cases res)
    show ?thesis
    proof (cases k)
      case False
      with \<open>apiUrl \<noteq> []\<close> Some res show ?thesis
        by (simp add: liveAttempt_def tryFetchLiveRoute_def)
    next
      case True
      show ?thesis
      proof (cases b)
        case None
        with \<open>apiUrl \<noteq> []\<close> Some res True show ?thesis
          by (simp add: liveAttempt_def tryFetchLiveRoute_def)
      next
        case (Some json)
        with \<open>apiUrl \<noteq> []\<close> \<open>net tno apiUrl apiKey = Some res\<close> res True show ?thesis
          by (cases "mapApiToRoute json") (auto simp: liveAttempt_def tryFetchLiveRoute_def)
      qed
    qed
  qed
qed





text \<open>
  A name with lower-case letters can be one that \<open>MOCK_ROUTES\<close> inherits, and the lookup
  then answers the inherited member; the call sites never pass such a name.
\<close>

lemma getRouteProvider_inherited_name:
  "getRouteProvider \<lparr>useLiveApi_checked = False, apiUrl_value = [], apiKey_value = []\<rparr>
     ''constructor'' (\<lambda>a b c. None)
   = (Inr (Some (Inherited ''constructor'')), [])"
  by (simp add: getRouteProvider_def Let_def trim_def fallbackRoute_def MOCK_ROUTES_def
      Object_prototype_keys_def)

end
